theory Spec2Isabelle
  imports Complex_Main
begin

section \<open>Python exceptions\<close>

text \<open>
  The exceptions the scripts can meet. \<open>KeyboardInterrupt\<close> stands for the classes that
  derive from \<open>BaseException\<close> only: an \<open>except Exception\<close> clause does not catch them.
\<close>

datatype exn =
    KeyError string
  | ValueError string
  | IndexError
  | ZeroDivisionError
  | OverflowError
  | FileNotFoundError string
  | OSError string
  | RuntimeError string
  | KeyboardInterrupt

fun is_Exception :: "exn \<Rightarrow> bool" where
  "is_Exception KeyboardInterrupt = False"
| "is_Exception _ = True"

section \<open>Python numbers\<close>

text \<open>
  \<open>int(x)\<close> truncates a float towards zero, \<open>//\<close> is floor division (\<open>div\<close> on
  \<open>int\<close>), and \<open>round\<close> goes to the nearest integer, a half to the even neighbour.
\<close>

definition py_int :: "real \<Rightarrow> int" where
  "py_int x = (if 0 \<le> x then \<lfloor>x\<rfloor> else \<lceil>x\<rceil>)"

definition py_round :: "real \<Rightarrow> int" where
  "py_round x =
     (let f = \<lfloor>x\<rfloor>; d = x - real_of_int f in
      if d < 1 / 2 then f
      else if d > 1 / 2 then f + 1
      else if even f then f else f + 1)"

subsection \<open>Rounding to binary64\<close>

text \<open>
  A Python float is an IEEE 754 binary64 number; a finite one is modelled by the real
  number it stands for. Every operation yields the exact result rounded to the nearest
  binary64 number, a tie to the even significand. The exponent of a real \<open>x\<close> is the
  largest \<open>e\<close> from \<open>-1022\<close> to \<open>1023\<close> with \<open>2 ^ e \<le> \<bar>x\<bar>\<close> (\<open>-1022\<close> for zero and the
  subnormal numbers), found by counting up; the significand has 53 bits, so the unit in
  the last place is \<open>2 ^ (e - 52)\<close>.
\<close>

definition pow2 :: "int \<Rightarrow> real" where
  "pow2 k = (if 0 \<le> k then 2 ^ nat k else 1 / 2 ^ nat (- k))"

fun exponent_from :: "nat \<Rightarrow> int \<Rightarrow> real \<Rightarrow> int" where
  "exponent_from 0 e a = e"
| "exponent_from (Suc n) e a = (if pow2 (e + 1) \<le> a then exponent_from n (e + 1) a else e)"

definition binary64_exponent :: "real \<Rightarrow> int" where
  "binary64_exponent x = exponent_from 2045 (- 1022) \<bar>x\<bar>"

definition binary64_round :: "real \<Rightarrow> real" where
  "binary64_round x =
     (let ulp = pow2 (binary64_exponent x - 52)
      in real_of_int (py_round (x / ulp)) * ulp)"

text \<open>
  A real whose magnitude reaches \<open>huge64\<close> rounds past the largest binary64 number.
  Converting an \<open>int\<close> to a float and \<open>/\<close> on two \<open>int\<close> raise \<open>OverflowError\<close>
  there; the product of two floats is an infinity instead (\<open>None\<close>), which \<open>int\<close> and
  \<open>math.floor\<close> refuse with \<open>OverflowError\<close>, and an infinity divided by a finite
  float stays one.
\<close>

definition huge64 :: real where
  "huge64 = 2 ^ 1024 - 2 ^ 970"

definition int_to_float :: "int \<Rightarrow> exn + real" where
  "int_to_float n =
     (if huge64 \<le> \<bar>real_of_int n\<bar> then Inl OverflowError else Inr (binary64_round (real_of_int n)))"

definition true_divide :: "int \<Rightarrow> int \<Rightarrow> exn + real" where
  "true_divide a b =
     (if b = 0 then Inl ZeroDivisionError
      else if huge64 \<le> \<bar>real_of_int a / real_of_int b\<bar> then Inl OverflowError
      else Inr (binary64_round (real_of_int a / real_of_int b)))"

definition float_mul :: "real \<Rightarrow> real \<Rightarrow> real option" where
  "float_mul x y = (if huge64 \<le> \<bar>x * y\<bar> then None else Some (binary64_round (x * y)))"

definition int_of_float :: "real option \<Rightarrow> exn + int" where
  "int_of_float x = (case x of None \<Rightarrow> Inl OverflowError | Some y \<Rightarrow> Inr (py_int y))"

definition math_sqrt :: "real \<Rightarrow> exn + real" where
  "math_sqrt x =
     (if x < 0 then Inl (ValueError ''math domain error'') else Inr (binary64_round (sqrt x)))"

definition math_floor :: "real option \<Rightarrow> exn + int" where
  "math_floor x = (case x of None \<Rightarrow> Inl OverflowError | Some y \<Rightarrow> Inr \<lfloor>y\<rfloor>)"

text \<open>A float divided by an \<open>int\<close>: the \<open>int\<close> is converted first.\<close>

definition float_div_int :: "real option \<Rightarrow> int \<Rightarrow> exn + real option" where
  "float_div_int x d =
     (case int_to_float d of
        Inl e \<Rightarrow> Inl e
      | Inr y \<Rightarrow>
          if y = 0 then Inl ZeroDivisionError
          else Inr (case x of None \<Rightarrow> None | Some v \<Rightarrow> Some (binary64_round (v / y))))"

section \<open>Resolution computation (Sampler_api.py)\<close>

text \<open>\<open>int(width * scale)\<close>, for an \<open>int\<close> and a float.\<close>

definition int_of_product :: "int \<Rightarrow> real \<Rightarrow> exn + int" where
  "int_of_product n scale =
     (case int_to_float n of
        Inl e \<Rightarrow> Inl e
      | Inr x \<Rightarrow> int_of_float (float_mul x scale))"

definition calculate_adjusted_resolution ::
  "int \<Rightarrow> int \<Rightarrow> int \<Rightarrow> int \<Rightarrow> exn + int \<times> int" where
  "calculate_adjusted_resolution width height max_area max_side =
     (case
        (if width > max_side \<or> height > max_side then
           (case true_divide max_side (max width height) of
              Inl e \<Rightarrow> Inl e
            | Inr scale \<Rightarrow>
                (case int_of_product width scale of
                   Inl e \<Rightarrow> Inl e
                 | Inr width' \<Rightarrow>
                     (case int_of_product height scale of
                        Inl e \<Rightarrow> Inl e
                      | Inr height' \<Rightarrow> Inr (width', height'))))
         else Inr (width, height))
      of
        Inl e \<Rightarrow> Inl e
      | Inr (width, height) \<Rightarrow>
          let area = width * height in
          (case
             (if area > max_area then
                (case true_divide max_area area of
                   Inl e \<Rightarrow> Inl e
                 | Inr ratio \<Rightarrow>
                     (case math_sqrt ratio of
                        Inl e \<Rightarrow> Inl e
                      | Inr scale \<Rightarrow>
                          (case int_of_product width scale of
                             Inl e \<Rightarrow> Inl e
                           | Inr width' \<Rightarrow>
                               (case int_of_product height scale of
                                  Inl e \<Rightarrow> Inl e
                                | Inr height' \<Rightarrow> Inr (width', height')))))
              else Inr (width, height))
           of
             Inl e \<Rightarrow> Inl e
           | Inr (width, height) \<Rightarrow> Inr ((width div 8) * 8, (height div 8) * 8)))"

text \<open>What the specification asks of the result.\<close>

definition within_bounds :: "int \<Rightarrow> int \<Rightarrow> int \<times> int \<Rightarrow> bool" where
  "within_bounds max_area max_side r \<longleftrightarrow>
     8 dvd fst r \<and> 8 dvd snd r \<and> fst r \<le> max_side \<and> snd r \<le> max_side \<and>
     fst r * snd r \<le> max_area"

subsection \<open>Bounds on the rounding error\<close>

text \<open>
  Rounding a real to binary64 changes it by at most half a unit in the last place: a
  factor of at most \<open>u64\<close> and a term of at most \<open>eta64\<close>. The other constants bound
  what these errors add up to in the two scalings of the resolution.
\<close>

definition u64 :: real where
  "u64 = 1 + 1 / 2 ^ 53"

definition eta64 :: real where
  "eta64 = 1 / 2 ^ 1075"

definition slack64 :: real where
  "slack64 = u64 * eta64 * 2 ^ 1024 + u64 * eta64 + eta64\<^sup>2"

definition scale_max64 :: real where
  "scale_max64 = u64 * (u64 + eta64) + eta64"

definition square_slack64 :: real where
  "square_slack64 = u64\<^sup>2 * eta64 + 2 * u64 * eta64 * (u64 + eta64) + eta64\<^sup>2"

definition sides_slack64 :: real where
  "sides_slack64 = u64 * eta64 * 2 ^ 51 + eta64\<^sup>2"

definition area_slack64 :: real where
  "area_slack64 =
     u64\<^sup>2 * (u64\<^sup>2 * square_slack64 * 2 ^ 100 + sides_slack64 * u64 ^ 3 +
       sides_slack64 * square_slack64) +
     u64 * eta64 * (scale_max64 * (u64 * 2 ^ 51 + 2 * eta64)) + eta64\<^sup>2"

section \<open>Adaptive preprocessing (Trainer/utils.py)\<close>

subsection \<open>Target size\<close>

text \<open>
  \<open>calculate_adaptive_size\<close> is float arithmetic only when the image exceeds the area
  budget. \<open>math.floor(width * scale_factor / divisible)\<close> converts \<open>width\<close>, multiplies,
  converts \<open>divisible\<close> and divides; \<open>%\<close> is \<open>mod\<close> on \<open>int\<close> (the sign of the
  divisor) and raises for a zero divisor.
\<close>

definition floor_of_quotient :: "int \<Rightarrow> real \<Rightarrow> int \<Rightarrow> exn + int" where
  "floor_of_quotient n scale_factor d =
     (case int_to_float n of
        Inl e \<Rightarrow> Inl e
      | Inr x \<Rightarrow>
          (case float_div_int (float_mul x scale_factor) d of
             Inl e \<Rightarrow> Inl e
           | Inr q \<Rightarrow> math_floor q))"

definition calculate_adaptive_size :: "int \<Rightarrow> int \<Rightarrow> int \<Rightarrow> int \<Rightarrow> exn + int \<times> int" where
  "calculate_adaptive_size height width target_area divisible =
     (let img_area = height * width in
      case
        (if img_area > target_area then
           (case true_divide target_area img_area of
              Inl e \<Rightarrow> Inl e
            | Inr ratio \<Rightarrow>
                (case math_sqrt ratio of
                   Inl e \<Rightarrow> Inl e
                 | Inr scale_factor \<Rightarrow>
                     (case floor_of_quotient width scale_factor divisible of
                        Inl e \<Rightarrow> Inl e
                      | Inr floor_w \<Rightarrow>
                          (case floor_of_quotient height scale_factor divisible of
                             Inl e \<Rightarrow> Inl e
                           | Inr floor_h \<Rightarrow>
                               Inr (floor_h * divisible, floor_w * divisible)))))
         else Inr (height, width))
      of
        Inl e \<Rightarrow> Inl e
      | Inr (height, width) \<Rightarrow>
          if divisible = 0 then Inl ZeroDivisionError
          else Inr (height - height mod divisible, width - width mod divisible))"

subsection \<open>Image tensors\<close>

text \<open>
  An image tensor has the shape channels, height, width. A PIL image is modelled by the
  tensor \<open>to_tensor\<close> makes of it, so \<open>image.height\<close> and \<open>image.width\<close> are the
  second and third dimension.
\<close>

type_synonym plane = "real list list"
type_synonym tensor = "plane list"

definition tensor_height :: "tensor \<Rightarrow> int" where
  "tensor_height t = (case t of [] \<Rightarrow> 0 | p # _ \<Rightarrow> int (length p))"

definition tensor_width :: "tensor \<Rightarrow> int" where
  "tensor_width t = (case t of (row # _) # _ \<Rightarrow> int (length row) | _ \<Rightarrow> 0)"

text \<open>
  \<open>transforms.Resize\<close> is the library's bilinear interpolation: a parameter, which yields
  a tensor or raises.
\<close>

definition process_image ::
  "(int \<times> int \<Rightarrow> tensor \<Rightarrow> exn + tensor) \<Rightarrow> tensor \<Rightarrow> int \<Rightarrow> int \<Rightarrow> exn + tensor" where
  "process_image resize img target_h target_w =
     (if tensor_height img > target_h \<or> tensor_width img > target_w
      then resize (target_h, target_w) img
      else Inr img)"

subsection \<open>Ordering, cropping and flipping a pair\<close>

record trainer_args =
  resolution :: int
  divisible :: int
  label_noise_prob :: "real option"
  random_crop :: bool
  no_hflip :: bool
  snr_value :: real
  beta_mapo :: real

text \<open>
  What the random generators return in one round of the loop over the pairs:
  \<open>random.random()\<close> for the label noise, the two \<open>torch.randint\<close> of
  \<open>RandomCrop.get_params\<close>, and \<open>random.random()\<close> for the flip.
\<close>

record draws =
  noise_draw :: real
  top_draw :: int
  left_draw :: int
  flip_draw :: real

text \<open>
  torchvision works on the last two dimensions of a tensor, whatever stands before them:
  \<open>crop\<close> applies the crop of one plane (the parameter \<open>crop_plane\<close>) to every plane,
  the horizontal flip reverses every row, \<open>Normalize([0.5], [0.5])\<close> maps every entry.
\<close>

definition crop ::
  "(int \<Rightarrow> int \<Rightarrow> int \<Rightarrow> int \<Rightarrow> plane \<Rightarrow> plane) \<Rightarrow> tensor \<Rightarrow> int \<Rightarrow> int \<Rightarrow> int \<Rightarrow> int \<Rightarrow>
   tensor" where
  "crop crop_plane img top_px left_px h w = map (crop_plane top_px left_px h w) img"

definition train_flip :: "tensor \<Rightarrow> tensor" where
  "train_flip img = map (map rev) img"

definition normalize_t :: "tensor \<Rightarrow> tensor" where
  "normalize_t img = map (map (map (\<lambda>x. (x - 0.5) / 0.5))) img"

text \<open>\<open>transforms.RandomCrop.get_params\<close>.\<close>

definition get_params :: "draws \<Rightarrow> tensor \<Rightarrow> int \<times> int \<Rightarrow> exn + int \<times> int \<times> int \<times> int" where
  "get_params rnd img output_size =
     (let h = tensor_height img; w = tensor_width img;
          th = fst output_size; tw = snd output_size in
      if h < th \<or> w < tw
      then Inl (ValueError ''Required crop size is larger than input image size'')
      else if w = tw \<and> h = th then Inr (0, 0, h, w)
      else Inr (top_draw rnd, left_draw rnd, th, tw))"

text \<open>
  \<open>torch.cat(im_tup, dim=0)\<close> appends the planes of the two images; it raises when
  their heights or widths differ.
\<close>

definition cat_channels :: "tensor \<times> tensor \<Rightarrow> exn + tensor" where
  "cat_channels im_tup =
     (if tensor_height (fst im_tup) = tensor_height (snd im_tup) \<and>
         tensor_width (fst im_tup) = tensor_width (snd im_tup)
      then Inr (fst im_tup @ snd im_tup)
      else Inl (RuntimeError ''Sizes of tensors must match except in dimension 0''))"

text \<open>The label after the noise, and the pair in the order the label gives it.\<close>

definition noisy_label :: "trainer_args \<Rightarrow> draws \<Rightarrow> real \<Rightarrow> real" where
  "noisy_label args rnd label_0 =
     (case label_noise_prob args of
        None \<Rightarrow> label_0
      | Some p \<Rightarrow> if noise_draw rnd < p then 1 - label_0 else label_0)"

definition order_pair :: "trainer_args \<Rightarrow> draws \<Rightarrow> real \<Rightarrow> 'a \<times> 'a \<Rightarrow> 'a \<times> 'a" where
  "order_pair args rnd label_0 im_tup =
     (if noisy_label args rnd label_0 = 0 then (snd im_tup, fst im_tup) else im_tup)"

text \<open>
  One round of the loop "Process image pairs" of \<open>preprocess_train\<close>: the result is the
  entry of \<open>combined_pixel_values\<close> and the entry of \<open>crop_top_lefts\<close>.
\<close>

definition process_pair ::
  "trainer_args \<Rightarrow> (int \<Rightarrow> int \<Rightarrow> int \<Rightarrow> int \<Rightarrow> plane \<Rightarrow> plane) \<Rightarrow> draws \<Rightarrow>
   tensor \<times> tensor \<Rightarrow> real \<Rightarrow> int \<times> int \<Rightarrow> exn + tensor \<times> (int \<times> int)" where
  "process_pair args crop_plane rnd im_tup label_0 target =
     (let target_h = fst target; target_w = snd target in
      case cat_channels (order_pair args rnd label_0 im_tup) of
        Inl e \<Rightarrow> Inl e
      | Inr combined_im \<Rightarrow>
          (case
             (if \<not> random_crop args then
                Inr (max 0 (py_round (real_of_int (tensor_height combined_im - target_h) / 2)),
                     max 0 (py_round (real_of_int (tensor_width combined_im - target_w) / 2)))
              else
                (case get_params rnd combined_im (target_h, target_w) of
                   Inl e \<Rightarrow> Inl e
                 | Inr (y1, x1, h, w) \<Rightarrow> Inr (y1, x1)))
           of
             Inl e \<Rightarrow> Inl e
           | Inr (y1, x1) \<Rightarrow>
               let cropped = crop crop_plane combined_im y1 x1 target_h target_w;
                   flipped =
                     (if \<not> no_hflip args \<and> flip_draw rnd < 0.5 then train_flip cropped
                      else cropped)
               in Inr (normalize_t flipped, (y1, x1))))"

text \<open>
  The spatial augmentation of one image: the crop at an offset with a target size, the
  flip or not, and the normalisation.
\<close>

definition augment ::
  "(int \<Rightarrow> int \<Rightarrow> int \<Rightarrow> int \<Rightarrow> plane \<Rightarrow> plane) \<Rightarrow> int \<times> int \<Rightarrow> int \<times> int \<Rightarrow> bool \<Rightarrow>
   tensor \<Rightarrow> tensor" where
  "augment crop_plane offset target flip img =
     (let cropped = crop crop_plane img (fst offset) (snd offset) (fst target) (snd target)
      in normalize_t (if flip then train_flip cropped else cropped))"

subsection \<open>The loop over the pairs and the first image column\<close>

text \<open>
  For the column \<open>jpg_0\<close>, \<open>preprocess_train\<close> takes the size of each image, computes
  its adaptive size under the budget \<open>args.resolution * args.resolution\<close> and passes
  both to \<open>process_image\<close>.
\<close>

definition preprocess_jpg_0 ::
  "(int \<times> int \<Rightarrow> tensor \<Rightarrow> exn + tensor) \<Rightarrow> trainer_args \<Rightarrow> tensor \<Rightarrow> exn + tensor" where
  "preprocess_jpg_0 resize args img =
     (case calculate_adaptive_size (tensor_height img) (tensor_width img)
             (resolution args * resolution args) (divisible args) of
        Inl e \<Rightarrow> Inl e
      | Inr (target_h, target_w) \<Rightarrow> process_image resize img target_h target_w)"



section \<open>Preference loss (Trainer/utils.py)\<close>














section \<open>Weight merge (from safetensors.py)\<close>

text \<open>
  The index JSON is an object; its entry \<open>weight_map\<close> is an object from tensor names to
  shard file names, iterated in insertion order. A safetensors file is a dictionary from
  tensor names to tensors. The disk holds both kinds of file by path, and the lines printed.
\<close>

type_synonym weight_map = "(string \<times> string) list"
type_synonym config = "string \<rightharpoonup> weight_map"
type_synonym 't tensors = "string \<rightharpoonup> 't"

record 't disk =
  json_files :: "string \<rightharpoonup> config"
  safetensors_files :: "string \<rightharpoonup> 't tensors"
  printed :: "string list"

definition shard_dir :: string where
  "shard_dir = ''G:/Crystal/Downloads/''"

definition shard1_name :: string where
  "shard1_name = ''diffusion_pytorch_model-00001-of-00002.safetensors''"

definition shard2_name :: string where
  "shard2_name = ''diffusion_pytorch_model-00002-of-00002.safetensors''"

definition load_file :: "'t disk \<Rightarrow> string \<Rightarrow> exn + 't tensors" where
  "load_file d path =
     (case safetensors_files d path of
        None \<Rightarrow> Inl (FileNotFoundError path)
      | Some ws \<Rightarrow> Inr ws)"

definition save_file :: "'t tensors \<Rightarrow> string \<Rightarrow> 't disk \<Rightarrow> 't disk" where
  "save_file ws path d = d\<lparr>safetensors_files := (safetensors_files d)(path \<mapsto> ws)\<rparr>"

text \<open>The loop over \<open>weight_map.items()\<close>; a subscript of a missing key raises \<open>KeyError\<close>.\<close>

fun merge_loop ::
  "'t tensors \<Rightarrow> 't tensors \<Rightarrow> weight_map \<Rightarrow> 't tensors \<Rightarrow> exn + 't tensors" where
  "merge_loop file1_weights file2_weights [] merged_weights = Inr merged_weights"
| "merge_loop file1_weights file2_weights ((key, file_name) # rest) merged_weights =
     (if file_name = shard1_name then
        (case file1_weights key of
           None \<Rightarrow> Inl (KeyError key)
         | Some t \<Rightarrow> merge_loop file1_weights file2_weights rest (merged_weights(key \<mapsto> t)))
      else
        (case file2_weights key of
           None \<Rightarrow> Inl (KeyError key)
         | Some t \<Rightarrow> merge_loop file1_weights file2_weights rest (merged_weights(key \<mapsto> t))))"

text \<open>
  The result pairs the outcome with the disk the script leaves behind, so that an
  exception shows what had been written before it.
\<close>

definition merge_safetensors ::
  "string \<Rightarrow> string \<Rightarrow> 't disk \<Rightarrow> (exn + unit) \<times> 't disk" where
  "merge_safetensors config_path output_path d =
     (case json_files d config_path of
        None \<Rightarrow> (Inl (FileNotFoundError config_path), d)
      | Some config \<Rightarrow>
     (case config ''weight_map'' of
        None \<Rightarrow> (Inl (KeyError ''weight_map''), d)
      | Some weight_map \<Rightarrow>
     (case load_file d (shard_dir @ shard1_name) of
        Inl e \<Rightarrow> (Inl e, d)
      | Inr file1_weights \<Rightarrow>
     (case load_file d (shard_dir @ shard2_name) of
        Inl e \<Rightarrow> (Inl e, d)
      | Inr file2_weights \<Rightarrow>
     (case merge_loop file1_weights file2_weights weight_map Map.empty of
        Inl e \<Rightarrow> (Inl e, d)
      | Inr merged_weights \<Rightarrow>
          (Inr (),
           (save_file merged_weights output_path d)
             \<lparr>printed := printed d @ [''Merged model saved to '' @ output_path]\<rparr>))))))"

text \<open>
  The shard the code reads for an index entry: the first hard-coded file when the entry
  names it, the second hard-coded file for every other name.
\<close>

definition selected_shard :: "'t tensors \<Rightarrow> 't tensors \<Rightarrow> string \<Rightarrow> 't tensors" where
  "selected_shard file1_weights file2_weights file_name =
     (if file_name = shard1_name then file1_weights else file2_weights)"

text \<open>
  The shard file an index entry names: shard names in an index are relative to the
  directory of the index, here the download directory of the script.
\<close>

definition named_shard :: "'t disk \<Rightarrow> string \<Rightarrow> 't tensors option" where
  "named_shard d file_name = safetensors_files d (shard_dir @ file_name)"

text \<open>
  What the specification asks of the merged mapping: its keys are those of the index and
  each tensor is the one of that name in the shard file the index names for it.
\<close>

definition merged_per_index :: "'t disk \<Rightarrow> weight_map \<Rightarrow> 't tensors \<Rightarrow> bool" where
  "merged_per_index d weight_map merged \<longleftrightarrow>
     dom merged = fst ` set weight_map \<and>
     (\<forall>(key, file_name) \<in> set weight_map.
        \<exists>shard t. named_shard d file_name = Some shard \<and> shard key = Some t \<and>
          merged key = Some t)"

section \<open>Text-encoder class selection (Trainer/utils.py)\<close>

record pretrained_config =
  architectures :: "string list"

datatype model_class = CLIPTextModel | CLIPTextModelWithProjection

text \<open>
  \<open>PretrainedConfig.from_pretrained\<close> is the library's loader: a parameter that yields
  the configuration or raises.
\<close>

definition import_model_class_from_model_name_or_path ::
  "(string \<Rightarrow> string \<Rightarrow> string \<Rightarrow> exn + pretrained_config) \<Rightarrow>
   string \<Rightarrow> string \<Rightarrow> string \<Rightarrow> exn + model_class" where
  "import_model_class_from_model_name_or_path from_pretrained
     pretrained_model_name_or_path revision subfolder =
     (case from_pretrained pretrained_model_name_or_path subfolder revision of
        Inl e \<Rightarrow> Inl e
      | Inr text_encoder_config \<Rightarrow>
          (case architectures text_encoder_config of
             [] \<Rightarrow> Inl IndexError
           | model_class # _ \<Rightarrow>
               if model_class = ''CLIPTextModel'' then Inr CLIPTextModel
               else if model_class = ''CLIPTextModelWithProjection''
               then Inr CLIPTextModelWithProjection
               else Inl (ValueError (model_class @ '' is not supported.''))))"

section \<open>Generation driver (Sampler_api.py)\<close>

subsection \<open>Manifest, arguments and the outside world\<close>

text \<open>
  The manifest maps artist names to mappings from image names to records; JSON objects
  keep their order, so both levels are association lists. The key \<open>generated\<close> may be
  absent, which \<open>image_info.get("generated", False)\<close> reads as false.
\<close>

record image_info =
  tag :: string
  width :: int
  height :: int
  generated :: "bool option"

type_synonym images_info = "(string \<times> image_info) list"
type_synonym manifest = "(string \<times> images_info) list"

record args =
  model_name :: string
  json_path :: string
  output_dir :: string
  batch_size :: int
  host :: string
  port :: int
  max_arg :: int

text \<open>The entries of the request body that vary; the others are constants of the script.\<close>

record image_data =
  prompt :: string
  seed :: int
  data_batch_size :: int
  data_width :: int
  data_height :: int
  sd_model_checkpoint :: string

text \<open>The lines the driver prints: the messages of the two \<open>except\<close> clauses.\<close>

datatype line =
    ApiError exn
  | ProcessError string string exn

text \<open>
  What the script has done so far: the manifest in memory (\<open>data\<close>), the requests sent,
  the image files saved, the successive contents written to the manifest file, the lines
  printed and the directories made.
\<close>

record world =
  data :: manifest
  requests :: "(string \<times> image_data) list"
  saved :: "(string \<times> string) list"
  written :: "manifest list"
  stdout :: "line list"
  dirs :: "string list"

text \<open>
  The libraries and the outside world are parameters. Each effectful call sees the world
  so far, so its outcome may differ from one call to the next; it returns its value or
  the exception it raises. \<open>post\<close> stands for \<open>requests.post\<close> followed by
  \<open>response.json().get('images', [])\<close>, \<open>decode\<close> for
  \<open>Image.open(io.BytesIO(base64.b64decode(...)))\<close>, \<open>dump\<close> for opening the manifest
  file and \<open>json.dump\<close>, \<open>load\<close> for opening it and \<open>json.load\<close>.
\<close>

record env =
  strip :: "string \<Rightarrow> string"
  stem :: "string \<Rightarrow> string"
  randint :: "world \<Rightarrow> int"
  post :: "world \<Rightarrow> string \<Rightarrow> image_data \<Rightarrow> exn + string list"
  decode :: "string \<Rightarrow> exn + string"
  save :: "world \<Rightarrow> string \<Rightarrow> string \<Rightarrow> exn option"
  dump :: "world \<Rightarrow> string \<Rightarrow> manifest \<Rightarrow> exn option"
  load :: "world \<Rightarrow> string \<Rightarrow> exn + manifest"
  mkdir :: "world \<Rightarrow> string \<Rightarrow> exn option"

subsection \<open>Strings\<close>

fun str_nat :: "nat \<Rightarrow> string" where
  "str_nat n =
     (if n < 10 then [char_of (48 + n)]
      else str_nat (n div 10) @ [char_of (48 + n mod 10)])"

declare str_nat.simps [simp del]

definition str_int :: "int \<Rightarrow> string" where
  "str_int i = (if i < 0 then ''-'' @ str_nat (nat (- i)) else str_nat (nat i))"

text \<open>\<open>tag.replace("|||", "")\<close>: every occurrence, found from the left, is removed.\<close>

fun remove_sep :: "string \<Rightarrow> string" where
  "remove_sep (a # b # c # rest) =
     (if a = CHR ''|'' \<and> b = CHR ''|'' \<and> c = CHR ''|'' then remove_sep rest
      else a # remove_sep (b # c # rest))"
| "remove_sep short = short"

subsection \<open>The functions of the driver\<close>

definition fetch_image_from_api ::
  "env \<Rightarrow> string \<Rightarrow> image_data \<Rightarrow> world \<Rightarrow> (exn + string list) \<times> world" where
  "fetch_image_from_api env api_url body w =
     (let w1 = w\<lparr>requests := requests w @ [(api_url, body)]\<rparr> in
      case post env w api_url body of
        Inr images \<Rightarrow> (Inr images, w1)
      | Inl e \<Rightarrow>
          if is_Exception e then (Inr [], w1\<lparr>stdout := stdout w1 @ [ApiError e]\<rparr>)
          else (Inl e, w1))"

text \<open>The dictionary literal \<open>image_data\<close> of the loop body.\<close>

definition build_image_data ::
  "env \<Rightarrow> args \<Rightarrow> world \<Rightarrow> image_info \<Rightarrow> int \<times> int \<Rightarrow> image_data" where
  "build_image_data env args w info res =
     \<lparr>prompt = strip env (remove_sep (tag info)),
      seed = randint env w,
      data_batch_size = batch_size args,
      data_width = fst res,
      data_height = snd res,
      sd_model_checkpoint = model_name args\<rparr>"

text \<open>The loop \<open>for i, base64_image in enumerate(images_base64)\<close>.\<close>

fun save_images ::
  "env \<Rightarrow> string \<Rightarrow> string \<Rightarrow> nat \<Rightarrow> string list \<Rightarrow> world \<Rightarrow> (exn + unit) \<times> world" where
  "save_images env artist_directory base_name i [] w = (Inr (), w)"
| "save_images env artist_directory base_name i (base64_image # rest) w =
     (case decode env base64_image of
        Inl e \<Rightarrow> (Inl e, w)
      | Inr img \<Rightarrow>
          let output_path =
            artist_directory @ ''/'' @ base_name @ ''_DPO'' @ str_nat (i + 1) @ ''.webp''
          in
            (case save env w output_path img of
               Some e \<Rightarrow> (Inl e, w)
             | None \<Rightarrow>
                 save_images env artist_directory base_name (i + 1) rest
                   (w\<lparr>saved := saved w @ [(output_path, img)]\<rparr>)))"

text \<open>
  \<open>image_info["generated"] = True\<close> mutates the record reached through the manifest:
  the entry of that image under that artist.
\<close>

definition mark_generated :: "string \<Rightarrow> string \<Rightarrow> manifest \<Rightarrow> manifest" where
  "mark_generated artist_name image_name m =
     map (\<lambda>(a, images).
            (a, if a = artist_name
                then map (\<lambda>(n, info).
                            (n, if n = image_name then info\<lparr>generated := Some True\<rparr> else info))
                       images
                else images))
       m"

text \<open>The body of the \<open>try\<close> statement, for one image.\<close>

definition try_block ::
  "env \<Rightarrow> args \<Rightarrow> string \<Rightarrow> string \<Rightarrow> string \<Rightarrow> string \<Rightarrow> image_info \<Rightarrow> world \<Rightarrow>
   (exn + unit) \<times> world" where
  "try_block env args artist_name artist_directory api_url image_name info w =
     (case calculate_adjusted_resolution (width info) (height info)
             (max_arg args * max_arg args) 2048 of
        Inl e \<Rightarrow> (Inl e, w)
      | Inr res \<Rightarrow>
     (case fetch_image_from_api env api_url (build_image_data env args w info res) w of
        (Inl e, w1) \<Rightarrow> (Inl e, w1)
      | (Inr images_base64, w1) \<Rightarrow>
     (case save_images env artist_directory (stem env image_name) 0 images_base64 w1 of
        (Inl e, w2) \<Rightarrow> (Inl e, w2)
      | (Inr u, w2) \<Rightarrow>
          let w3 = w2\<lparr>data := mark_generated artist_name image_name (data w2)\<rparr> in
          (case dump env w3 (json_path args) (data w3) of
             Some e \<Rightarrow> (Inl e, w3)
           | None \<Rightarrow> (Inr (), w3\<lparr>written := written w3 @ [data w3]\<rparr>)))))"

text \<open>One round of the loop: the \<open>continue\<close> test, then \<open>try\<close> and \<open>except Exception\<close>.\<close>

definition process_image_entry ::
  "env \<Rightarrow> args \<Rightarrow> string \<Rightarrow> string \<Rightarrow> string \<Rightarrow> string \<times> image_info \<Rightarrow> world \<Rightarrow>
   (exn + unit) \<times> world" where
  "process_image_entry env args artist_name artist_directory api_url entry w =
     (case entry of (image_name, info) \<Rightarrow>
        if generated info = Some True then (Inr (), w)
        else
          (case try_block env args artist_name artist_directory api_url image_name info w of
             (Inr u, w1) \<Rightarrow> (Inr (), w1)
           | (Inl e, w1) \<Rightarrow>
               if is_Exception e
               then (Inr (), w1\<lparr>stdout := stdout w1 @ [ProcessError image_name artist_name e]\<rparr>)
               else (Inl e, w1)))"

text \<open>
  The loop over \<open>images_info.items()\<close>. The records are those loaded from the manifest;
  each is changed in its own round only, so the record a round reads is the one the
  manifest of the world holds under that artist and image name.
\<close>

fun images_loop ::
  "env \<Rightarrow> args \<Rightarrow> string \<Rightarrow> string \<Rightarrow> string \<Rightarrow> images_info \<Rightarrow> world \<Rightarrow>
   (exn + unit) \<times> world" where
  "images_loop env args artist_name artist_directory api_url [] w = (Inr (), w)"
| "images_loop env args artist_name artist_directory api_url (entry # rest) w =
     (case process_image_entry env args artist_name artist_directory api_url entry w of
        (Inl e, w1) \<Rightarrow> (Inl e, w1)
      | (Inr u, w1) \<Rightarrow> images_loop env args artist_name artist_directory api_url rest w1)"

text \<open>
  The argument \<open>data\<close> of the source is the manifest of the world. \<open>mkdir\<close> raises
  outside the \<open>try\<close> statement.
\<close>

definition process_artist_images ::
  "env \<Rightarrow> string \<Rightarrow> images_info \<Rightarrow> string \<Rightarrow> string \<Rightarrow> args \<Rightarrow> world \<Rightarrow>
   (exn + unit) \<times> world" where
  "process_artist_images env artist_name images output_directory api_url args w =
     (let artist_directory = output_directory @ ''/'' @ artist_name in
      case mkdir env w artist_directory of
        Some e \<Rightarrow> (Inl e, w)
      | None \<Rightarrow>
          images_loop env args artist_name artist_directory api_url images
            (w\<lparr>dirs := dirs w @ [artist_directory]\<rparr>))"

fun artists_loop ::
  "env \<Rightarrow> args \<Rightarrow> string \<Rightarrow> string \<Rightarrow> manifest \<Rightarrow> world \<Rightarrow> (exn + unit) \<times> world" where
  "artists_loop env args output_directory api_url [] w = (Inr (), w)"
| "artists_loop env args output_directory api_url ((artist_name, images) # rest) w =
     (case process_artist_images env artist_name images output_directory api_url args w of
        (Inl e, w1) \<Rightarrow> (Inl e, w1)
      | (Inr u, w1) \<Rightarrow> artists_loop env args output_directory api_url rest w1)"

definition generate_images_from_json :: "env \<Rightarrow> args \<Rightarrow> world \<Rightarrow> (exn + unit) \<times> world" where
  "generate_images_from_json env args w =
     (let api_url = ''http://'' @ host args @ '':'' @ str_int (port args) @ ''/sdapi/v1/txt2img'' in
      case mkdir env w (output_dir args) of
        Some e \<Rightarrow> (Inl e, w)
      | None \<Rightarrow>
          let w1 = w\<lparr>dirs := dirs w @ [output_dir args]\<rparr> in
          (case load env w1 (json_path args) of
             Inl e \<Rightarrow> (Inl e, w1)
           | Inr m \<Rightarrow> artists_loop env args (output_dir args) api_url m (w1\<lparr>data := m\<rparr>)))"

text \<open>The record of an image in a manifest.\<close>

definition entry_of :: "manifest \<Rightarrow> string \<Rightarrow> string \<Rightarrow> image_info option" where
  "entry_of m artist_name image_name =
     (case map_of m artist_name of
        None \<Rightarrow> None
      | Some images \<Rightarrow> map_of images image_name)"

section \<open>Cleanup script (DELECT.py)\<close>

text \<open>
  \<open>os.walk\<close> yields, for each directory under the root, its path, its subdirectories and
  its files; \<open>unlink\<close> removes a file or raises. The state is the list of files removed
  and the lines printed.
\<close>

datatype delete_line =
    Deleted string
  | DeleteError string exn

record delete_state =
  removed :: "string list"
  delete_stdout :: "delete_line list"

fun filenames_loop ::
  "(delete_state \<Rightarrow> string \<Rightarrow> exn option) \<Rightarrow> string \<Rightarrow> string list \<Rightarrow> delete_state \<Rightarrow>
   (exn + unit) \<times> delete_state" where
  "filenames_loop unlink dirpath [] st = (Inr (), st)"
| "filenames_loop unlink dirpath (filename # rest) st =
     (if filename = ''process.mark'' then
        let file_path = dirpath @ ''/'' @ filename in
        (case unlink st file_path of
           None \<Rightarrow>
             filenames_loop unlink dirpath rest
               (st\<lparr>removed := removed st @ [file_path],
                   delete_stdout := delete_stdout st @ [Deleted file_path]\<rparr>)
         | Some e \<Rightarrow>
             if is_Exception e
             then filenames_loop unlink dirpath rest
                    (st\<lparr>delete_stdout := delete_stdout st @ [DeleteError file_path e]\<rparr>)
             else (Inl e, st))
      else filenames_loop unlink dirpath rest st)"

fun walk_loop ::
  "(delete_state \<Rightarrow> string \<Rightarrow> exn option) \<Rightarrow> (string \<times> string list \<times> string list) list \<Rightarrow>
   delete_state \<Rightarrow> (exn + unit) \<times> delete_state" where
  "walk_loop unlink [] st = (Inr (), st)"
| "walk_loop unlink ((dirpath, dirnames, filenames) # rest) st =
     (case filenames_loop unlink dirpath filenames st of
        (Inl e, st1) \<Rightarrow> (Inl e, st1)
      | (Inr u, st1) \<Rightarrow> walk_loop unlink rest st1)"

definition delete_process_mark_files ::
  "(string \<Rightarrow> (string \<times> string list \<times> string list) list) \<Rightarrow>
   (delete_state \<Rightarrow> string \<Rightarrow> exn option) \<Rightarrow> string \<Rightarrow> delete_state \<Rightarrow>
   (exn + unit) \<times> delete_state" where
  "delete_process_mark_files walk unlink root_path st = walk_loop unlink (walk root_path) st"

section \<open>Notions used by the properties of the driver\<close>

text \<open>
  A manifest keeps the generated records of another when every record marked generated
  there is found unchanged, under the same artist and image name.
\<close>

definition keeps_generated :: "manifest \<Rightarrow> manifest \<Rightarrow> bool" where
  "keeps_generated m m' \<longleftrightarrow>
     (\<forall>a n info. entry_of m a n = Some info \<and> generated info = Some True \<longrightarrow>
        entry_of m' a n = Some info)"

text \<open>An outside world whose calls raise nothing outside the class \<open>Exception\<close>.\<close>

definition only_Exceptions :: "env \<Rightarrow> bool" where
  "only_Exceptions env \<longleftrightarrow>
     (\<forall>w u b e. post env w u b = Inl e \<longrightarrow> is_Exception e) \<and>
     (\<forall>s e. decode env s = Inl e \<longrightarrow> is_Exception e) \<and>
     (\<forall>w p i e. save env w p i = Some e \<longrightarrow> is_Exception e) \<and>
     (\<forall>w p m e. dump env w p m = Some e \<longrightarrow> is_Exception e)"

section \<open>Concrete inputs\<close>

subsection \<open>Disks of the weight merge\<close>

text \<open>
  An index that names a third shard file for tensor \<open>a\<close>; the three files hold
  different tensors under that name.
\<close>

definition third_shard_disk :: "nat disk" where
  "third_shard_disk =
     \<lparr>json_files = [''index.json'' \<mapsto> [''weight_map'' \<mapsto> [(''a'', ''third.safetensors'')]]],
      safetensors_files =
        [shard_dir @ shard1_name \<mapsto> [''a'' \<mapsto> 1],
         shard_dir @ shard2_name \<mapsto> [''a'' \<mapsto> 2],
         shard_dir @ ''third.safetensors'' \<mapsto> [''a'' \<mapsto> 3]],
      printed = []\<rparr>"

text \<open>The same index, where the third shard file holds no tensor \<open>a\<close>.\<close>

definition absent_tensor_disk :: "nat disk" where
  "absent_tensor_disk =
     \<lparr>json_files = [''index.json'' \<mapsto> [''weight_map'' \<mapsto> [(''a'', ''third.safetensors'')]]],
      safetensors_files =
        [shard_dir @ shard1_name \<mapsto> Map.empty,
         shard_dir @ shard2_name \<mapsto> [''a'' \<mapsto> 2],
         shard_dir @ ''third.safetensors'' \<mapsto> Map.empty],
      printed = []\<rparr>"

text \<open>A two-shard checkpoint: \<open>a\<close> lives in the first shard, \<open>b\<close> in the second.\<close>

definition two_shard_index :: weight_map where
  "two_shard_index = [(''a'', shard1_name), (''b'', shard2_name)]"

definition two_shard_disk :: "nat disk" where
  "two_shard_disk =
     \<lparr>json_files = [''index.json'' \<mapsto> [''weight_map'' \<mapsto> two_shard_index]],
      safetensors_files =
        [shard_dir @ shard1_name \<mapsto> [''a'' \<mapsto> 1],
         shard_dir @ shard2_name \<mapsto> [''b'' \<mapsto> 2]],
      printed = []\<rparr>"

text \<open>The same checkpoint with an index that also lists \<open>c\<close>, which no shard holds.\<close>

definition missing_tensor_disk :: "nat disk" where
  "missing_tensor_disk =
     \<lparr>json_files =
        [''index.json'' \<mapsto> [''weight_map'' \<mapsto> two_shard_index @ [(''c'', shard2_name)]],
         ''empty.json'' \<mapsto> Map.empty],
      safetensors_files =
        [shard_dir @ shard1_name \<mapsto> [''a'' \<mapsto> 1],
         shard_dir @ shard2_name \<mapsto> [''b'' \<mapsto> 2]],
      printed = []\<rparr>"

definition unsupported_config :: "string \<Rightarrow> string \<Rightarrow> string \<Rightarrow> exn + pretrained_config" where
  "unsupported_config name subfolder revision = Inr \<lparr>architectures = [''T5EncoderModel'']\<rparr>"

subsection \<open>Worlds of the driver and of the cleanup script\<close>

text \<open>
  An endpoint that refuses every connection, and one whose images do not decode; a
  manifest with one generated and one pending image.
\<close>

definition offline_env :: env where
  "offline_env =
     \<lparr>strip = (\<lambda>s. s), stem = (\<lambda>s. s), randint = (\<lambda>w. 1),
      post = (\<lambda>w u b. Inl (OSError ''connection refused'')),
      decode = (\<lambda>s. Inr s), save = (\<lambda>w p i. None), dump = (\<lambda>w p m. None),
      load = (\<lambda>w p. Inl (FileNotFoundError p)), mkdir = (\<lambda>w p. None)\<rparr>"

definition garbled_env :: env where
  "garbled_env =
     offline_env\<lparr>post := (\<lambda>w u b. Inr [''AAAA'']),
                 decode := (\<lambda>s. Inl (ValueError ''cannot identify image file''))\<rparr>"

definition demo_args :: args where
  "demo_args =
     \<lparr>model_name = ''model'', json_path = ''dataset.json'', output_dir = ''temp'',
      batch_size = 3, host = ''localhost'', port = 7860, max_arg = 1536\<rparr>"

definition done_info :: image_info where
  "done_info = \<lparr>tag = ''1girl|||solo'', width = 1000, height = 1000, generated = Some True\<rparr>"

definition todo_info :: image_info where
  "todo_info = \<lparr>tag = ''1girl|||solo'', width = 1000, height = 1000, generated = Some False\<rparr>"

definition demo_manifest :: manifest where
  "demo_manifest = [(''artist'', [(''a.png'', done_info), (''b.png'', todo_info)])]"

definition demo_world :: world where
  "demo_world =
     \<lparr>data = demo_manifest, requests = [], saved = [], written = [], stdout = [], dirs = []\<rparr>"

definition demo_request :: image_data where
  "demo_request =
     \<lparr>prompt = ''1girlsolo'', seed = 1, data_batch_size = 3, data_width = 1000,
      data_height = 1000, sd_model_checkpoint = ''model''\<rparr>"

definition denied_unlink :: "delete_state \<Rightarrow> string \<Rightarrow> exn option" where
  "denied_unlink st p = Some (OSError ''permission denied'')"

definition demo_walk :: "string \<Rightarrow> (string \<times> string list \<times> string list) list" where
  "demo_walk root_path =
     [(root_path, [''sub''], [''process.mark'', ''a.png'']),
      (root_path @ ''/sub'', [], [''process.mark''])]"

definition empty_delete_state :: delete_state where
  "empty_delete_state = \<lparr>removed = [], delete_stdout = []\<rparr>"

definition marked_manifest :: manifest where
  "marked_manifest =
     [(''artist'', [(''a.png'', done_info), (''b.png'', todo_info\<lparr>generated := Some True\<rparr>)])]"

definition failed_world :: world where
  "failed_world =
     \<lparr>data = marked_manifest, requests = [(''url'', demo_request)], saved = [],
      written = [marked_manifest], stdout = [ApiError (OSError ''connection refused'')],
      dirs = []\<rparr>"

subsection \<open>Images and pairs\<close>

text \<open>A resize that takes the nearest source pixel, and the slicing crop of a plane.\<close>

definition nearest_resize :: "int \<times> int \<Rightarrow> tensor \<Rightarrow> exn + tensor" where
  "nearest_resize target img =
     Inr (map (\<lambda>p.
            map (\<lambda>i. map (\<lambda>j. p ! (i * length p div nat (fst target))
                                 ! (j * length (hd p) div nat (snd target)))
                     [0..<nat (snd target)])
              [0..<nat (fst target)])
          img)"

definition slice_plane :: "int \<Rightarrow> int \<Rightarrow> int \<Rightarrow> int \<Rightarrow> plane \<Rightarrow> plane" where
  "slice_plane top_px left_px h w p =
     map (\<lambda>row. take (nat w) (drop (nat left_px) row)) (take (nat h) (drop (nat top_px) p))"

definition shape_of :: "exn + tensor \<Rightarrow> (int \<times> int) option" where
  "shape_of r = (case r of Inl e \<Rightarrow> None | Inr t \<Rightarrow> Some (tensor_height t, tensor_width t))"

definition image_9x9 :: tensor where
  "image_9x9 = replicate 3 (replicate 9 (replicate 9 0.5))"

definition image_8x8 :: tensor where
  "image_8x8 = replicate 3 (replicate 8 (replicate 8 0.5))"

definition demo_trainer_args :: trainer_args where
  "demo_trainer_args =
     \<lparr>resolution = 16, divisible = 8, label_noise_prob = None, random_crop = False,
      no_hflip = False, snr_value = 5, beta_mapo = 0.1\<rparr>"

definition demo_draws :: draws where
  "demo_draws = \<lparr>noise_draw = 0.9, top_draw = 0, left_draw = 0, flip_draw = 0.25\<rparr>"

definition image_a :: tensor where
  "image_a = [[[1, 2], [3, 4]]]"

definition image_b :: tensor where
  "image_b = [[[5, 6], [7, 8]]]"

subsection \<open>Exact arithmetic and a training step\<close>















section \<open>Properties of the weight merge\<close>

lemma merge_loop_step:
  "merge_loop f1 f2 ((key, file_name) # rest) acc =
     (case selected_shard f1 f2 file_name key of
        None \<Rightarrow> Inl (KeyError key)
      | Some t \<Rightarrow> merge_loop f1 f2 rest (acc(key \<mapsto> t)))"
  by (simp add: selected_shard_def)

lemma merge_loop_ok:
  assumes "\<forall>(key, file_name) \<in> set wm. key \<in> dom (selected_shard f1 f2 file_name)"
  shows "\<exists>merged. merge_loop f1 f2 wm acc = Inr merged"
  using assms
proof (induction wm arbitrary: acc)
  case Nil
  then show ?case by simp
next
  case (Cons p wm)
  obtain key file_name where p: "p = (key, file_name)" by (cases p)
  from Cons.prems p obtain t where t: "selected_shard f1 f2 file_name key = Some t"
    by auto
  have rest: "\<forall>(key, file_name) \<in> set wm. key \<in> dom (selected_shard f1 f2 file_name)"
    using Cons.prems by simp
  have step: "merge_loop f1 f2 (p # wm) acc = merge_loop f1 f2 wm (acc(key \<mapsto> t))"
    unfolding p merge_loop_step by (simp add: t)
  show ?case unfolding step by (rule Cons.IH [OF rest])
qed

lemma merge_loop_dom:
  assumes "merge_loop f1 f2 wm acc = Inr merged"
  shows "dom merged = dom acc \<union> fst ` set wm \<and>
         (\<forall>k. k \<notin> fst ` set wm \<longrightarrow> merged k = acc k)"
  using assms
proof (induction wm arbitrary: acc)
  case Nil
  then show ?case by simp
next
  case (Cons p wm)
  obtain key file_name where p: "p = (key, file_name)" by (cases p)
  from Cons.prems obtain t where
    run: "merge_loop f1 f2 wm (acc(key \<mapsto> t)) = Inr merged"
    unfolding p merge_loop_step by (auto split: option.splits)
  from Cons.IH [OF run] show ?case
    by (auto simp: p)
qed

lemma merge_loop_value:
  assumes "merge_loop f1 f2 wm acc = Inr merged"
    and "distinct (map fst wm)"
    and "(key, file_name) \<in> set wm"
  shows "\<exists>t. selected_shard f1 f2 file_name key = Some t \<and> merged key = Some t"
  using assms
proof (induction wm arbitrary: acc)
  case Nil
  then show ?case by simp
next
  case (Cons p wm)
  obtain k f where p: "p = (k, f)" by (cases p)
  from Cons.prems(1) obtain t where
    t: "selected_shard f1 f2 f k = Some t"
    and run: "merge_loop f1 f2 wm (acc(k \<mapsto> t)) = Inr merged"
    unfolding p merge_loop_step by (auto split: option.splits)
  show ?case
  proof (cases "(key, file_name) \<in> set wm")
    case True
    have "distinct (map fst wm)" using Cons.prems(2) by simp
    from Cons.IH [OF run this True] show ?thesis .
  next
    case False
    then have here: "key = k" "file_name = f"
      using Cons.prems(3) p by auto
    have notin: "k \<notin> fst ` set wm"
      using Cons.prems(2) p by simp
    from merge_loop_dom [OF run] notin have "merged k = Some t" by simp
    then show ?thesis using t here by simp
  qed
qed

lemma merge_loop_raises:
  assumes "(key, file_name) \<in> set wm"
    and "selected_shard f1 f2 file_name key = None"
  shows "\<exists>(k, f) \<in> set wm. selected_shard f1 f2 f k = None \<and>
           merge_loop f1 f2 wm acc = Inl (KeyError k)"
  using assms
proof (induction wm arbitrary: acc)
  case Nil
  then show ?case by simp
next
  case (Cons p wm)
  obtain k f where p: "p = (k, f)" by (cases p)
  show ?case
  proof (cases "selected_shard f1 f2 f k")
    case None
    then have "merge_loop f1 f2 (p # wm) acc = Inl (KeyError k)"
      unfolding p merge_loop_step by simp
    with None show ?thesis by (auto simp: p)
  next
    case (Some t)
    then have step: "merge_loop f1 f2 (p # wm) acc = merge_loop f1 f2 wm (acc(k \<mapsto> t))"
      unfolding p merge_loop_step by simp
    have "(key, file_name) \<in> set wm"
      using Cons.prems Some p by auto
    from Cons.IH [OF this Cons.prems(2), of "acc(k \<mapsto> t)"] obtain k' f' where
      "(k', f') \<in> set wm" "selected_shard f1 f2 f' k' = None"
      "merge_loop f1 f2 wm (acc(k \<mapsto> t)) = Inl (KeyError k')"
      by blast
    then show ?thesis
      unfolding step by (intro bexI [of _ "(k', f')"]) simp_all
  qed
qed

lemma shard_names_differ: "shard1_name \<noteq> shard2_name"
  by (simp add: shard1_name_def shard2_name_def)


text \<open>
  C2, as stated, fails: the index names \<open>third.safetensors\<close> for tensor \<open>a\<close>, the
  script reads \<open>a\<close> from the second hard-coded shard instead, and the merged mapping does
  not hold the tensor of the shard the index names.
\<close>

theorem merge_safetensors_third_shard_counterexample:
  "fst (merge_safetensors ''index.json'' ''out.safetensors'' third_shard_disk) = Inr () \<and>
   \<not> merged_per_index third_shard_disk [(''a'', ''third.safetensors'')]
       (the (safetensors_files
          (snd (merge_safetensors ''index.json'' ''out.safetensors'' third_shard_disk))
          ''out.safetensors''))"
  by (simp add: merge_safetensors_def third_shard_disk_def load_file_def save_file_def
      merged_per_index_def named_shard_def shard_dir_def shard1_name_def shard2_name_def)

text \<open>
  C2 (amended): for every index whose weight map lists, under distinct names, only tensors
  present in the shard the script reads for them (the first hard-coded shard for an entry
  naming that file, the second hard-coded shard for every other entry), both shard files
  being on disk, \<open>merge_safetensors\<close> returns normally and saves a mapping whose key set
  is exactly the key set of the weight map, each key holding the tensor of that name of
  the shard read for it; that shard is the shard file the index names for the key
  whenever the index names only the two hard-coded files.
\<close>

theorem merge_safetensors_two_shards:
  assumes cfg: "json_files d config_path = Some config"
    and wm: "config ''weight_map'' = Some wm"
    and s1: "named_shard d shard1_name = Some file1_weights"
    and s2: "named_shard d shard2_name = Some file2_weights"
    and keys: "distinct (map fst wm)"
    and present: "\<forall>(key, file_name) \<in> set wm.
        key \<in> dom (selected_shard file1_weights file2_weights file_name)"
  shows "\<exists>merged.
           merge_safetensors config_path output_path d =
             (Inr (), (save_file merged output_path d)
                \<lparr>printed := printed d @ [''Merged model saved to '' @ output_path]\<rparr>) \<and>
           dom merged = fst ` set wm \<and>
           (\<forall>(key, file_name) \<in> set wm.
              merged key = selected_shard file1_weights file2_weights file_name key) \<and>
           ((\<forall>(key, file_name) \<in> set wm. file_name = shard1_name \<or> file_name = shard2_name) \<longrightarrow>
              merged_per_index d wm merged)"
proof -
  have sel: "named_shard d f = Some (selected_shard file1_weights file2_weights f)"
    if "f = shard1_name \<or> f = shard2_name" for f
    using that s1 s2 shard_names_differ by (auto simp: selected_shard_def)
  from merge_loop_ok [OF present] obtain merged where
    run: "merge_loop file1_weights file2_weights wm Map.empty = Inr merged"
    by blast
  have l1: "load_file d (shard_dir @ shard1_name) = Inr file1_weights"
    and l2: "load_file d (shard_dir @ shard2_name) = Inr file2_weights"
    using s1 s2 by (simp_all add: load_file_def named_shard_def)
  have res: "merge_safetensors config_path output_path d =
      (Inr (), (save_file merged output_path d)
         \<lparr>printed := printed d @ [''Merged model saved to '' @ output_path]\<rparr>)"
    by (simp add: merge_safetensors_def cfg wm l1 l2 run)
  have dm: "dom merged = fst ` set wm"
    using merge_loop_dom [OF run] by simp
  have val: "\<exists>t. selected_shard file1_weights file2_weights f k = Some t \<and> merged k = Some t"
    if "(k, f) \<in> set wm" for k f
    using merge_loop_value [OF run keys that] .
  have read: "\<forall>(key, file_name) \<in> set wm.
      merged key = selected_shard file1_weights file2_weights file_name key"
    using val by fastforce
  have named: "merged_per_index d wm merged"
    if two: "\<forall>(key, file_name) \<in> set wm. file_name = shard1_name \<or> file_name = shard2_name"
  proof -
    have "\<exists>shard t. named_shard d f = Some shard \<and> shard k = Some t \<and> merged k = Some t"
      if kf: "(k, f) \<in> set wm" for k f
    proof -
      from kf two have "f = shard1_name \<or> f = shard2_name" by auto
      from sel [OF this] val [OF kf] show ?thesis by blast
    qed
    with dm show ?thesis
      unfolding merged_per_index_def by auto
  qed
  from res dm read named show ?thesis by blast
qed

theorem merge_safetensors_two_shards_witness:
  "\<exists>merged.
     merge_safetensors ''index.json'' ''out.safetensors'' two_shard_disk =
       (Inr (), (save_file merged ''out.safetensors'' two_shard_disk)
          \<lparr>printed := printed two_shard_disk @
             [''Merged model saved to '' @ ''out.safetensors'']\<rparr>) \<and>
     dom merged = {''a'', ''b''} \<and> merged ''a'' = Some 1 \<and> merged ''b'' = Some 2 \<and>
     merged_per_index two_shard_disk two_shard_index merged"
proof -
  have c: "json_files two_shard_disk ''index.json'' = Some [''weight_map'' \<mapsto> two_shard_index]"
    by (simp add: two_shard_disk_def)
  have w: "[''weight_map'' \<mapsto> two_shard_index] ''weight_map'' = Some two_shard_index"
    by simp
  have s1: "named_shard two_shard_disk shard1_name = Some [''a'' \<mapsto> 1]"
    by (simp add: named_shard_def two_shard_disk_def shard1_name_def shard2_name_def)
  have s2: "named_shard two_shard_disk shard2_name = Some [''b'' \<mapsto> 2]"
    by (simp add: named_shard_def two_shard_disk_def shard1_name_def shard2_name_def)
  have k: "distinct (map fst two_shard_index)"
    by (simp add: two_shard_index_def)
  have p: "\<forall>(key, file_name) \<in> set two_shard_index.
      key \<in> dom (selected_shard [''a'' \<mapsto> 1::nat] [''b'' \<mapsto> 2] file_name)"
    by (simp add: two_shard_index_def selected_shard_def shard1_name_def shard2_name_def)
  have t: "\<forall>(key, file_name) \<in> set two_shard_index.
      file_name = shard1_name \<or> file_name = shard2_name"
    by (simp add: two_shard_index_def)
  from merge_safetensors_two_shards [OF c w s1 s2 k p, of "''out.safetensors''"]
  obtain merged where
    m: "merge_safetensors ''index.json'' ''out.safetensors'' two_shard_disk =
       (Inr (), (save_file merged ''out.safetensors'' two_shard_disk)
          \<lparr>printed := printed two_shard_disk @
             [''Merged model saved to '' @ ''out.safetensors'']\<rparr>)"
    and d: "dom merged = fst ` set two_shard_index"
    and r: "\<forall>(key, file_name) \<in> set two_shard_index.
              merged key = selected_shard [''a'' \<mapsto> 1::nat] [''b'' \<mapsto> 2] file_name key"
    and n: "merged_per_index two_shard_disk two_shard_index merged"
    using t by blast
  from d have d': "dom merged = {''a'', ''b''}"
    by (auto simp: two_shard_index_def)
  from r have r': "merged ''a'' = Some 1" "merged ''b'' = Some 2"
    by (simp_all add: two_shard_index_def selected_shard_def shard1_name_def shard2_name_def)
  from m d' r' n show ?thesis by blast
qed

text \<open>
  C9, as stated, fails: the index names \<open>third.safetensors\<close> for tensor \<open>a\<close>, that
  file holds no tensor \<open>a\<close>, and the script does not raise: it reads \<open>a\<close> from the second
  hard-coded shard and writes the output.
\<close>

theorem merge_safetensors_absent_tensor_counterexample:
  "the (named_shard absent_tensor_disk ''third.safetensors'') ''a'' = None \<and>
   fst (merge_safetensors ''index.json'' ''out.safetensors'' absent_tensor_disk) = Inr () \<and>
   the (safetensors_files
          (snd (merge_safetensors ''index.json'' ''out.safetensors'' absent_tensor_disk))
          ''out.safetensors'') ''a'' = Some 2"
  by (simp add: merge_safetensors_def absent_tensor_disk_def load_file_def save_file_def
      named_shard_def shard_dir_def shard1_name_def shard2_name_def)

text \<open>
  C9 (amended): structural failures raise and leave the disk as it was. In
  \<open>merge_safetensors\<close>, a configuration without the key \<open>weight_map\<close> raises
  \<open>KeyError\<close>; an index entry whose tensor is absent from the shard the script reads for
  it (the first hard-coded shard when the entry names that file, the second one for any
  other name) makes the run raise \<open>KeyError\<close> for a tensor absent in this way, before
  anything is written. In \<open>import_model_class_from_model_name_or_path\<close>, a first
  architecture other than \<open>CLIPTextModel\<close> and \<open>CLIPTextModelWithProjection\<close> raises
  \<open>ValueError\<close>.
\<close>

theorem structural_failures_raise:
  "(json_files d config_path = Some config \<and> config ''weight_map'' = None \<longrightarrow>
      merge_safetensors config_path output_path d = (Inl (KeyError ''weight_map''), d)) \<and>
   (json_files d config_path = Some config \<and> config ''weight_map'' = Some wm \<and>
    load_file d (shard_dir @ shard1_name) = Inr file1_weights \<and>
    load_file d (shard_dir @ shard2_name) = Inr file2_weights \<and>
    (key, file_name) \<in> set wm \<and>
    selected_shard file1_weights file2_weights file_name key = None \<longrightarrow>
      (\<exists>(k, f) \<in> set wm. selected_shard file1_weights file2_weights f k = None \<and>
         merge_safetensors config_path output_path d = (Inl (KeyError k), d))) \<and>
   (from_pretrained name subfolder revision = Inr text_encoder_config \<and>
    architectures text_encoder_config = model_class # others \<and>
    model_class \<noteq> ''CLIPTextModel'' \<and> model_class \<noteq> ''CLIPTextModelWithProjection'' \<longrightarrow>
      import_model_class_from_model_name_or_path from_pretrained name revision subfolder =
        Inl (ValueError (model_class @ '' is not supported.'')))"
proof (intro conjI impI)
  assume "json_files d config_path = Some config \<and> config ''weight_map'' = None"
  then show "merge_safetensors config_path output_path d = (Inl (KeyError ''weight_map''), d)"
    by (simp add: merge_safetensors_def)
next
  assume a: "json_files d config_path = Some config \<and> config ''weight_map'' = Some wm \<and>
    load_file d (shard_dir @ shard1_name) = Inr file1_weights \<and>
    load_file d (shard_dir @ shard2_name) = Inr file2_weights \<and>
    (key, file_name) \<in> set wm \<and>
    selected_shard file1_weights file2_weights file_name key = None"
  then have "(key, file_name) \<in> set wm"
    and "selected_shard file1_weights file2_weights file_name key = None"
    by simp_all
  from merge_loop_raises [OF this, of Map.empty] obtain k f where
    kf: "(k, f) \<in> set wm" "selected_shard file1_weights file2_weights f k = None"
      "merge_loop file1_weights file2_weights wm Map.empty = Inl (KeyError k)"
    by blast
  have "merge_safetensors config_path output_path d = (Inl (KeyError k), d)"
    using a kf(3) by (simp add: merge_safetensors_def)
  with kf(1,2) show "\<exists>(k, f) \<in> set wm. selected_shard file1_weights file2_weights f k = None \<and>
         merge_safetensors config_path output_path d = (Inl (KeyError k), d)"
    by (intro bexI [of _ "(k, f)"]) simp_all
next
  assume "from_pretrained name subfolder revision = Inr text_encoder_config \<and>
    architectures text_encoder_config = model_class # others \<and>
    model_class \<noteq> ''CLIPTextModel'' \<and> model_class \<noteq> ''CLIPTextModelWithProjection''"
  then show "import_model_class_from_model_name_or_path from_pretrained name revision subfolder =
        Inl (ValueError (model_class @ '' is not supported.''))"
    by (simp add: import_model_class_from_model_name_or_path_def)
qed

theorem structural_failures_raise_witness:
  "merge_safetensors ''empty.json'' ''out.safetensors'' missing_tensor_disk =
     (Inl (KeyError ''weight_map''), missing_tensor_disk) \<and>
   merge_safetensors ''index.json'' ''out.safetensors'' missing_tensor_disk =
     (Inl (KeyError ''c''), missing_tensor_disk) \<and>
   import_model_class_from_model_name_or_path unsupported_config ''model'' ''main''
       ''text_encoder'' =
     Inl (ValueError ''T5EncoderModel is not supported.'')"
proof -
  let ?wm = "two_shard_index @ [(''c'', shard2_name)]"
  let ?f1 = "[''a'' \<mapsto> 1::nat]" and ?f2 = "[''b'' \<mapsto> 2::nat]"
  have 1: "merge_safetensors ''empty.json'' ''out.safetensors'' missing_tensor_disk =
     (Inl (KeyError ''weight_map''), missing_tensor_disk)"
    using structural_failures_raise
      [of missing_tensor_disk "''empty.json''" Map.empty "''out.safetensors''"]
    by (simp add: missing_tensor_disk_def)
  have "\<exists>(k, f) \<in> set ?wm. selected_shard ?f1 ?f2 f k = None \<and>
         merge_safetensors ''index.json'' ''out.safetensors'' missing_tensor_disk =
           (Inl (KeyError k), missing_tensor_disk)"
    using structural_failures_raise
      [of missing_tensor_disk "''index.json''" "[''weight_map'' \<mapsto> ?wm]"
          "''out.safetensors''" ?wm ?f1 ?f2 "''c''" shard2_name]
    by (simp add: missing_tensor_disk_def load_file_def selected_shard_def
        shard_dir_def shard1_name_def shard2_name_def two_shard_index_def)
  then have 2: "merge_safetensors ''index.json'' ''out.safetensors'' missing_tensor_disk =
     (Inl (KeyError ''c''), missing_tensor_disk)"
    by (auto simp: selected_shard_def two_shard_index_def shard1_name_def shard2_name_def)
  have 3: "import_model_class_from_model_name_or_path unsupported_config ''model'' ''main''
       ''text_encoder'' = Inl (ValueError ''T5EncoderModel is not supported.'')"
    using structural_failures_raise
      [where from_pretrained = unsupported_config and name = "''model''"
         and subfolder = "''text_encoder''" and revision = "''main''"
         and text_encoder_config = "\<lparr>architectures = [''T5EncoderModel'']\<rparr>"
         and model_class = "''T5EncoderModel''" and others = "[]",
       THEN conjunct2, THEN conjunct2]
    by (simp add: unsupported_config_def)
  from 1 2 3 show ?thesis by simp
qed

section \<open>Properties of binary64\<close>

lemma pow2_pos: "0 < pow2 k"
  by (simp add: pow2_def)

lemma pow2_add: "pow2 (a + b) = pow2 a * pow2 b"
proof -
  have "pow2 k = 2 powi k" for k
    by (simp add: pow2_def power_int_def field_simps)
  then show ?thesis by (simp add: power_int_add)
qed

lemma pow2_mono: "a \<le> b \<Longrightarrow> pow2 a \<le> pow2 b"
proof -
  assume "a \<le> b"
  have eq: "pow2 k = 2 powi k" for k
    by (simp add: pow2_def power_int_def field_simps)
  show ?thesis unfolding eq using \<open>a \<le> b\<close> by (intro power_int_increasing) simp_all
qed

lemma exponent_from_low: "exponent_from n e a = e \<or> pow2 (exponent_from n e a) \<le> a"
proof (induction n arbitrary: e)
  case 0
  show ?case by simp
next
  case (Suc n)
  from Suc.IH [of "e + 1"] show ?case by auto
qed

lemma exponent_from_range: "e \<le> exponent_from n e a \<and> exponent_from n e a \<le> e + int n"
proof (induction n arbitrary: e)
  case 0
  show ?case by simp
next
  case (Suc n)
  from Suc.IH [of "e + 1"] show ?case by auto
qed

lemma exponent_from_high:
  "a < pow2 (exponent_from n e a + 1) \<or> exponent_from n e a = e + int n"
proof (induction n arbitrary: e)
  case 0
  show ?case by simp
next
  case (Suc n)
  from Suc.IH [of "e + 1"] show ?case by auto
qed

lemma binary64_exponent_eq:
  assumes e: "- 1022 \<le> e" "e \<le> 1023" and lo: "pow2 e \<le> \<bar>x\<bar>" and hi: "\<bar>x\<bar> < pow2 (e + 1)"
  shows "binary64_exponent x = e"
proof -
  let ?r = "binary64_exponent x"
  have low: "?r = - 1022 \<or> pow2 ?r \<le> \<bar>x\<bar>"
    unfolding binary64_exponent_def by (rule exponent_from_low)
  have high: "\<bar>x\<bar> < pow2 (?r + 1) \<or> ?r = 1023"
    using exponent_from_high [of "\<bar>x\<bar>" 2045 "- 1022"] by (simp add: binary64_exponent_def)
  have range: "- 1022 \<le> ?r" "?r \<le> 1023"
    using exponent_from_range [of "- 1022" 2045 "\<bar>x\<bar>"] by (simp_all add: binary64_exponent_def)
  have "?r \<le> e"
  proof (rule ccontr)
    assume "\<not> ?r \<le> e"
    then have "e + 1 \<le> ?r" by simp
    then have "pow2 (e + 1) \<le> pow2 ?r" by (rule pow2_mono)
    moreover from \<open>e + 1 \<le> ?r\<close> e low have "pow2 ?r \<le> \<bar>x\<bar>" by auto
    ultimately show False using hi by linarith
  qed
  moreover have "e \<le> ?r"
  proof (rule ccontr)
    assume "\<not> e \<le> ?r"
    then have "?r + 1 \<le> e" by simp
    then have "pow2 (?r + 1) \<le> pow2 e" by (rule pow2_mono)
    moreover from \<open>?r + 1 \<le> e\<close> e high have "\<bar>x\<bar> < pow2 (?r + 1)" by auto
    ultimately show False using lo by linarith
  qed
  ultimately show ?thesis by simp
qed

lemma exponent_from_stop: "a < pow2 (e + 1) \<Longrightarrow> exponent_from n e a = e"
  by (cases n) simp_all

lemma binary64_exponent_subnormal:
  assumes "\<bar>x\<bar> < pow2 (- 1021)"
  shows "binary64_exponent x = - 1022"
  unfolding binary64_exponent_def using assms by (intro exponent_from_stop) simp

lemma py_round_error: "\<bar>real_of_int (py_round x) - x\<bar> \<le> 1 / 2"
  by (simp add: py_round_def Let_def)

lemma py_round_nonneg: "0 \<le> x \<Longrightarrow> 0 \<le> py_round x"
  by (simp add: py_round_def Let_def)

lemma py_round_of_int: "py_round (real_of_int k) = k"
  by (simp add: py_round_def)

text \<open>The rounding error of binary64: half a unit in the last place.\<close>

lemma binary64_round_error:
  "\<bar>binary64_round x - x\<bar> \<le> \<bar>x\<bar> / 2 ^ 53 + 1 / 2 ^ 1075"
proof -
  let ?e = "binary64_exponent x"
  let ?u = "pow2 (?e - 52)"
  have u: "0 < ?u" by (rule pow2_pos)
  have "\<bar>binary64_round x - x\<bar> = \<bar>real_of_int (py_round (x / ?u)) - x / ?u\<bar> * ?u"
  proof -
    have "binary64_round x - x = (real_of_int (py_round (x / ?u)) - x / ?u) * ?u"
      using u by (simp add: binary64_round_def Let_def field_simps)
    then show ?thesis using u by (simp add: abs_mult)
  qed
  also have "\<dots> \<le> (1 / 2) * ?u"
    using py_round_error [of "x / ?u"] u by (intro mult_right_mono) simp_all
  also have "\<dots> = pow2 ?e / 2 ^ 53"
  proof -
    have "pow2 (?e - 52) = pow2 ?e * pow2 (- 52)"
      using pow2_add [of ?e "- 52"] by simp
    then show ?thesis by (simp add: pow2_def)
  qed
  also have "\<dots> \<le> \<bar>x\<bar> / 2 ^ 53 + 1 / 2 ^ 1075"
  proof -
    have "?e = - 1022 \<or> pow2 ?e \<le> \<bar>x\<bar>"
      unfolding binary64_exponent_def by (rule exponent_from_low)
    then show ?thesis
    proof
      assume "?e = - 1022"
      then have "pow2 ?e / 2 ^ 53 = 1 / 2 ^ 1075"
        by (simp add: pow2_def power_add [symmetric])
      then show ?thesis by simp
    next
      assume "pow2 ?e \<le> \<bar>x\<bar>"
      then have "pow2 ?e / 2 ^ 53 \<le> \<bar>x\<bar> / 2 ^ 53"
        by (simp add: divide_right_mono)
      then show ?thesis by simp
    qed
  qed
  finally show ?thesis .
qed

lemma binary64_round_nonneg: "0 \<le> x \<Longrightarrow> 0 \<le> binary64_round x"
  using pow2_pos [of "binary64_exponent x - 52"]
  by (simp add: binary64_round_def Let_def py_round_nonneg)

lemma binary64_round_upper:
  assumes "0 \<le> x"
  shows "binary64_round x \<le> (1 + 1 / 2 ^ 53) * x + 1 / 2 ^ 1075"
  using binary64_round_error [of x] assms by (simp add: abs_le_iff algebra_simps)

lemma binary64_round_eq:
  assumes "- 1022 \<le> e" "e \<le> 1023" "pow2 e \<le> \<bar>x\<bar>" "\<bar>x\<bar> < pow2 (e + 1)"
  shows "binary64_round x = real_of_int (py_round (x / pow2 (e - 52))) * pow2 (e - 52)"
  using binary64_exponent_eq [OF assms] by (simp add: binary64_round_def Let_def)

lemma binary64_round_exact:
  assumes "- 1022 \<le> e" "e \<le> 1023" "pow2 e \<le> \<bar>x\<bar>" "\<bar>x\<bar> < pow2 (e + 1)"
    and "x = real_of_int k * pow2 (e - 52)"
  shows "binary64_round x = x"
proof -
  have "x / pow2 (e - 52) = real_of_int k"
    using assms(5) pow2_pos [of "e - 52"] by simp
  then show ?thesis
    using binary64_round_eq [OF assms(1-4)] assms(5) by (simp add: py_round_of_int)
qed

lemma u64_ge_1: "1 \<le> u64" and u64_pos: "0 < u64" and eta64_nonneg: "0 \<le> eta64"
  by (simp_all add: u64_def eta64_def)

lemma binary64_round_bounds:
  assumes "0 \<le> x"
  shows "0 \<le> binary64_round x" and "binary64_round x \<le> u64 * x + eta64"
  using binary64_round_nonneg [OF assms] binary64_round_upper [OF assms]
  by (simp_all add: u64_def eta64_def)

lemma true_divide_bounds:
  assumes "0 \<le> a" and "0 < b" and "a \<le> b"
  shows "\<exists>s. true_divide a b = Inr s \<and> 0 \<le> s \<and>
           s \<le> u64 * (real_of_int a / real_of_int b) + eta64"
proof -
  let ?q = "real_of_int a / real_of_int b"
  have q: "0 \<le> ?q" "?q \<le> 1" using assms by simp_all
  then have "\<bar>?q\<bar> < 2 ^ 1024 - 2 ^ 970"
    by simp
  then have "true_divide a b = Inr (binary64_round ?q)"
    using assms(2) by (simp add: true_divide_def huge64_def)
  with binary64_round_bounds [OF q(1)] show ?thesis by simp
qed

lemma math_sqrt_bounds:
  assumes "0 \<le> x"
  shows "\<exists>s. math_sqrt x = Inr s \<and> 0 \<le> s \<and> s \<le> u64 * sqrt x + eta64"
proof -
  have "0 \<le> sqrt x" using assms by simp
  from binary64_round_bounds [OF this] assms show ?thesis
    by (simp add: math_sqrt_def huge64_def)
qed

lemma int_of_product_bounds:
  assumes n: "0 \<le> n" "real_of_int n < 2 ^ 1024 - 2 ^ 970"
    and s: "0 \<le> s"
    and small: "(u64 * real_of_int n + eta64) * s < 2 ^ 1024 - 2 ^ 970"
  shows "\<exists>k. int_of_product n s = Inr k \<and> 0 \<le> k \<and>
           real_of_int k \<le> u64 * ((u64 * real_of_int n + eta64) * s) + eta64"
proof -
  let ?x = "binary64_round (real_of_int n)"
  have n0: "0 \<le> real_of_int n" using n(1) by simp
  note x = binary64_round_bounds [OF n0]
  have conv: "int_to_float n = Inr ?x"
    using n by (simp add: int_to_float_def huge64_def)
  have p0: "0 \<le> ?x * s" using x(1) s by simp
  have p1: "?x * s \<le> (u64 * real_of_int n + eta64) * s"
    using x(2) s by (rule mult_right_mono)
  with small p0 have "\<bar>?x * s\<bar> < 2 ^ 1024 - 2 ^ 970" by simp
  then have mul: "float_mul ?x s = Some (binary64_round (?x * s))"
    by (simp add: float_mul_def huge64_def)
  note y = binary64_round_bounds [OF p0]
  have res: "int_of_product n s = Inr (py_int (binary64_round (?x * s)))"
    by (simp add: int_of_product_def conv mul int_of_float_def)
  have k0: "0 \<le> py_int (binary64_round (?x * s))"
    using y(1) by (simp add: py_int_def)
  have "real_of_int (py_int (binary64_round (?x * s))) \<le> binary64_round (?x * s)"
    using y(1) by (simp add: py_int_def)
  also have "\<dots> \<le> u64 * (?x * s) + eta64" by (rule y(2))
  also have "\<dots> \<le> u64 * ((u64 * real_of_int n + eta64) * s) + eta64"
    using p1 u64_pos by simp
  finally show ?thesis using res k0 by blast
qed

text \<open>Reals that binary64 holds exactly.\<close>

lemma binary64_round_values:
  "binary64_round 1 = 1"
  "binary64_round (- 1) = - 1"
  "binary64_round (2 ^ 57) = 2 ^ 57"
  "binary64_round (1 / 2 + 1 / 2 ^ 53) = 1 / 2 + 1 / 2 ^ 53"
  "binary64_round (2 ^ 56 + 16) = 2 ^ 56 + 16"
proof -
  show "binary64_round 1 = 1"
    by (rule binary64_round_exact [where e = 0 and k = "2 ^ 52"]) (simp_all add: pow2_def)
  show "binary64_round (- 1) = - 1"
    by (rule binary64_round_exact [where e = 0 and k = "- (2 ^ 52)"]) (simp_all add: pow2_def)
  show "binary64_round (2 ^ 57) = 2 ^ 57"
    by (rule binary64_round_exact [where e = 57 and k = "2 ^ 52"]) (simp_all add: pow2_def)
  show "binary64_round (1 / 2 + 1 / 2 ^ 53) = 1 / 2 + 1 / 2 ^ 53"
    by (rule binary64_round_exact [where e = "- 1" and k = "2 ^ 52 + 1"])
      (simp_all add: pow2_def)
  show "binary64_round (2 ^ 56 + 16) = 2 ^ 56 + 16"
    by (rule binary64_round_exact [where e = 56 and k = "2 ^ 52 + 1"]) (simp_all add: pow2_def)
qed

lemma binary64_round_numerals:
  "binary64_round 1 = 1"
  "binary64_round (- 1) = - 1"
  "binary64_round 144115188075855872 = 144115188075855872"
  "binary64_round (4503599627370497 / 9007199254740992) = 4503599627370497 / 9007199254740992"
  "binary64_round 72057594037927952 = 72057594037927952"
  using binary64_round_values by simp_all

lemma binary64_round_more_values:
  "binary64_round (9 / 16) = 9 / 16"
  "binary64_round (3 / 4) = 3 / 4"
  "binary64_round 268435456 = 268435456"
  "binary64_round 201326592 = 201326592"
  "binary64_round (- (1 / 64)) = - (1 / 64)"
  "binary64_round (1 / 2) = 1 / 2"
  "binary64_round (1 / 4) = 1 / 4"
  "binary64_round 4096 = 4096"
  "binary64_round 2048 = 2048"
  "binary64_round 1024 = 1024"
proof -
  show "binary64_round (9 / 16) = 9 / 16"
    by (rule binary64_round_exact [where e = "- 1" and k = "9 * 2 ^ 49"]) (simp_all add: pow2_def)
  show "binary64_round (3 / 4) = 3 / 4"
    by (rule binary64_round_exact [where e = "- 1" and k = "3 * 2 ^ 51"]) (simp_all add: pow2_def)
  show "binary64_round 268435456 = 268435456"
    by (rule binary64_round_exact [where e = 28 and k = "2 ^ 52"]) (simp_all add: pow2_def)
  show "binary64_round 201326592 = 201326592"
    by (rule binary64_round_exact [where e = 27 and k = "3 * 2 ^ 51"]) (simp_all add: pow2_def)
  show "binary64_round (- (1 / 64)) = - (1 / 64)"
    by (rule binary64_round_exact [where e = "- 6" and k = "- (2 ^ 52)"]) (simp_all add: pow2_def)
  show "binary64_round (1 / 2) = 1 / 2"
    by (rule binary64_round_exact [where e = "- 1" and k = "2 ^ 52"]) (simp_all add: pow2_def)
  show "binary64_round (1 / 4) = 1 / 4"
    by (rule binary64_round_exact [where e = "- 2" and k = "2 ^ 52"]) (simp_all add: pow2_def)
  show "binary64_round 4096 = 4096"
    by (rule binary64_round_exact [where e = 12 and k = "2 ^ 52"]) (simp_all add: pow2_def)
  show "binary64_round 2048 = 2048"
    by (rule binary64_round_exact [where e = 11 and k = "2 ^ 52"]) (simp_all add: pow2_def)
  show "binary64_round 1024 = 1024"
    by (rule binary64_round_exact [where e = 10 and k = "2 ^ 52"]) (simp_all add: pow2_def)
qed

lemma sqrt_9_16: "sqrt (9 / 16) = 3 / 4"
  by (rule real_sqrt_unique) (simp_all add: power2_eq_square)

lemma sqrt_1_4: "sqrt (1 / 4) = 1 / 2"
  by (rule real_sqrt_unique) (simp_all add: power2_eq_square)

section \<open>Properties of the resolution computation\<close>

lemma slack64_nonneg: "0 \<le> slack64"
  by (simp add: slack64_def u64_def eta64_def)

lemma side_numbers:
  "u64\<^sup>2 * 2 ^ 50 + slack64 < 2 ^ 1024 - 2 ^ 970"
  "(u64 ^ 3 - 1) * 2 ^ 50 + u64 * slack64 + eta64 < 1"
  by (simp_all add: slack64_def u64_def eta64_def power2_eq_square power3_eq_cube)

lemma limit_side:
  assumes w: "0 < w" "w \<le> m" and m: "real_of_int m < 2 ^ 1024 - 2 ^ 970"
    and M: "0 \<le> M" "M < m" "M \<le> 2 ^ 50"
    and sc: "0 \<le> s" "s \<le> u64 * (real_of_int M / real_of_int m) + eta64"
  shows "\<exists>k. int_of_product w s = Inr k \<and> 0 \<le> k \<and> k \<le> M"
proof -
  define q where "q = real_of_int M / real_of_int m"
  define X where "X = u64 * real_of_int w + eta64"
  have m0: "0 < real_of_int m" using w by simp
  have q: "0 \<le> q" "q \<le> 1" using M m0 by (simp_all add: q_def)
  have w0: "0 \<le> real_of_int w" using w by simp
  have wq: "real_of_int w * q \<le> real_of_int M"
  proof -
    have "real_of_int w * q = real_of_int M * (real_of_int w / real_of_int m)"
      by (simp add: q_def)
    also have "\<dots> \<le> real_of_int M * 1"
      using w m0 M(1) by (intro mult_left_mono) simp_all
    finally show ?thesis by simp
  qed
  have wm: "real_of_int w \<le> real_of_int m" using w(2) by simp
  have "(2::real) ^ 1024 - 2 ^ 970 \<le> 2 ^ 1024" by simp
  with wm m have wH: "real_of_int w \<le> 2 ^ 1024" by linarith
  have M50: "real_of_int M \<le> 2 ^ 50"
    using M(3) of_int_le_iff [of M "2 ^ 50", where ?'a = real] by simp
  have X0: "0 \<le> X" using w0 u64_pos eta64_nonneg by (simp add: X_def)
  have "X * s \<le> X * (u64 * q + eta64)"
    using sc(2) X0 unfolding q_def by (rule mult_left_mono)
  also have "\<dots> = u64\<^sup>2 * (real_of_int w * q) + u64 * eta64 * real_of_int w +
      u64 * eta64 * q + eta64\<^sup>2"
    by (simp add: X_def power2_eq_square algebra_simps)
  also have "\<dots> \<le> u64\<^sup>2 * real_of_int M + u64 * eta64 * 2 ^ 1024 + u64 * eta64 * 1 + eta64\<^sup>2"
  proof -
    have "u64\<^sup>2 * (real_of_int w * q) \<le> u64\<^sup>2 * real_of_int M"
      using wq by (intro mult_left_mono) simp_all
    moreover have "u64 * eta64 * real_of_int w \<le> u64 * eta64 * 2 ^ 1024"
      using wH u64_pos eta64_nonneg by (intro mult_left_mono) simp_all
    moreover have "u64 * eta64 * q \<le> u64 * eta64 * 1"
      using q(2) u64_pos eta64_nonneg by (intro mult_left_mono) simp_all
    ultimately show ?thesis by linarith
  qed
  finally have Xs: "X * s \<le> u64\<^sup>2 * real_of_int M + slack64"
    by (simp add: slack64_def)
  have "u64\<^sup>2 * real_of_int M \<le> u64\<^sup>2 * 2 ^ 50"
    using M50 by (intro mult_left_mono) simp_all
  with Xs side_numbers(1) have small: "X * s < 2 ^ 1024 - 2 ^ 970" by linarith
  have wlt: "real_of_int w < 2 ^ 1024 - 2 ^ 970" using wm m by linarith
  from int_of_product_bounds [OF _ wlt sc(1) small [unfolded X_def]] w(1)
  obtain k where k: "int_of_product w s = Inr k" "0 \<le> k"
    "real_of_int k \<le> u64 * (X * s) + eta64"
    by (auto simp: X_def)
  have "u64 * (X * s) \<le> u64 * (u64\<^sup>2 * real_of_int M + slack64)"
    using Xs u64_pos by (intro mult_left_mono) simp_all
  with k(3) have "real_of_int k \<le> u64 ^ 3 * real_of_int M + u64 * slack64 + eta64"
    by (simp add: power2_eq_square power3_eq_cube algebra_simps)
  moreover have "(u64 ^ 3 - 1) * real_of_int M \<le> (u64 ^ 3 - 1) * 2 ^ 50"
    using M50 u64_ge_1 by (intro mult_left_mono) (simp_all)
  ultimately have "real_of_int k < real_of_int M + 1"
    using side_numbers(2) by (simp add: algebra_simps)
  then have "k \<le> M" by linarith
  with k(1,2) show ?thesis by blast
qed

lemma area_numbers:
  "(u64 * 2 ^ 50 + eta64) * scale_max64 < 2 ^ 1024 - 2 ^ 970"
  "(u64\<^sup>2 * scale_max64 - 1) * 2 ^ 50 + u64 * eta64 * scale_max64 + eta64 < 1"
  "(u64 ^ 7 - 1) * 2 ^ 50 + area_slack64 < 1"
  "0 \<le> u64\<^sup>2 * scale_max64 - 1"
  "0 \<le> square_slack64" "0 \<le> sides_slack64" "0 \<le> scale_max64"
  by (simp_all add: area_slack64_def sides_slack64_def square_slack64_def scale_max64_def
      u64_def eta64_def power2_eq_square power3_eq_cube eval_nat_numeral)

lemma limit_area_side:
  assumes x: "0 \<le> x" "x \<le> M" and M: "M \<le> 2 ^ 50"
    and s: "0 \<le> s" "s \<le> scale_max64"
  shows "\<exists>k. int_of_product x s = Inr k \<and> 0 \<le> k \<and> k \<le> M \<and>
           real_of_int k \<le> u64 * ((u64 * real_of_int x + eta64) * s) + eta64"
proof -
  define X where "X = u64 * real_of_int x + eta64"
  have x0: "0 \<le> real_of_int x" using x by simp
  have xM: "real_of_int x \<le> real_of_int M" using x by simp
  have M50: "real_of_int M \<le> 2 ^ 50"
    using M of_int_le_iff [of M "2 ^ 50", where ?'a = real] by simp
  have X0: "0 \<le> X" using x0 u64_pos eta64_nonneg by (simp add: X_def)
  have XM: "X \<le> u64 * real_of_int M + eta64"
    using xM u64_pos by (simp add: X_def)
  have M0: "0 \<le> u64 * real_of_int M + eta64"
    using X0 XM by linarith
  have Xs: "X * s \<le> (u64 * real_of_int M + eta64) * scale_max64"
    using XM s X0 M0 by (intro mult_mono) simp_all
  have "(u64 * real_of_int M + eta64) * scale_max64 \<le> (u64 * 2 ^ 50 + eta64) * scale_max64"
    using M50 u64_pos area_numbers(7) by (intro mult_right_mono) simp_all
  with Xs area_numbers(1) have small: "X * s < 2 ^ 1024 - 2 ^ 970" by linarith
  have "real_of_int x \<le> 2 ^ 50" using xM M50 by linarith
  moreover have "(2::real) ^ 50 < 2 ^ 1024 - 2 ^ 970" by simp
  ultimately have xlt: "real_of_int x < 2 ^ 1024 - 2 ^ 970" by linarith
  from int_of_product_bounds [OF x(1) xlt s(1) small [unfolded X_def]]
  obtain k where k: "int_of_product x s = Inr k" "0 \<le> k"
    "real_of_int k \<le> u64 * (X * s) + eta64"
    by (auto simp: X_def)
  have "u64 * (X * s) \<le> u64 * ((u64 * real_of_int M + eta64) * scale_max64)"
    using Xs u64_pos by (intro mult_left_mono) simp_all
  with k(3) have "real_of_int k \<le>
      (u64\<^sup>2 * scale_max64) * real_of_int M + u64 * eta64 * scale_max64 + eta64"
    by (simp add: power2_eq_square algebra_simps)
  moreover have "(u64\<^sup>2 * scale_max64 - 1) * real_of_int M \<le>
      (u64\<^sup>2 * scale_max64 - 1) * 2 ^ 50"
    using M50 area_numbers(4) by (rule mult_left_mono)
  ultimately have "real_of_int k < real_of_int M + 1"
    using area_numbers(2) by (simp add: algebra_simps)
  then have "k \<le> M" by linarith
  with k show ?thesis by (auto simp: X_def)
qed

lemma limit_area:
  assumes w: "0 \<le> w" "w \<le> M" and h: "0 \<le> h" "h \<le> M" and M: "M \<le> 2 ^ 50"
    and A: "0 \<le> A" "A \<le> 2 ^ 50" "A < w * h"
    and rho: "0 \<le> \<rho>" "\<rho> \<le> u64 * (real_of_int A / real_of_int (w * h)) + eta64"
    and s: "0 \<le> s" "s \<le> u64 * sqrt \<rho> + eta64"
  shows "\<exists>kw kh. int_of_product w s = Inr kw \<and>
           int_of_product h s = Inr kh \<and>
           0 \<le> kw \<and> kw \<le> M \<and> 0 \<le> kh \<and> kh \<le> M \<and> kw * kh \<le> A"
proof -
  define a where "a = real_of_int (w * h)"
  define q where "q = real_of_int A / a"
  define X where "X = u64 * real_of_int w + eta64"
  define Y where "Y = u64 * real_of_int h + eta64"
  note u = u64_pos u64_ge_1 and e = eta64_nonneg
  have a0: "0 < a" using A by (simp add: a_def del: of_int_mult)
  have A0: "0 \<le> real_of_int A" using A(1) by simp
  have Aa: "real_of_int A \<le> a"
    unfolding a_def using A(3) by (simp only: of_int_le_iff)
  have q: "0 \<le> q" "q \<le> 1" "a * q = real_of_int A"
    using a0 A0 Aa by (simp_all add: q_def)
  have M50: "real_of_int M \<le> 2 ^ 50"
    using M of_int_le_iff [of M "2 ^ 50", where ?'a = real] by simp
  have A50: "real_of_int A \<le> 2 ^ 50"
    using A(2) of_int_le_iff [of A "2 ^ 50", where ?'a = real] by simp
  have w0: "0 \<le> real_of_int w" and h0: "0 \<le> real_of_int h" using w h by simp_all
  have wM: "real_of_int w \<le> 2 ^ 50" and hM: "real_of_int h \<le> 2 ^ 50"
    using w h M50 by linarith+
  have a100: "a \<le> 2 ^ 100"
  proof -
    have "real_of_int w * real_of_int h \<le> 2 ^ 50 * 2 ^ 50"
      using wM hM w0 h0 by (intro mult_mono) simp_all
    then show ?thesis by (simp add: a_def)
  qed
  text \<open>The scale.\<close>
  have rho1: "\<rho> \<le> u64 + eta64"
  proof -
    have "u64 * q \<le> u64 * 1" using q(2) u(1) by (intro mult_left_mono) simp_all
    with rho(2) show ?thesis by (simp add: q_def a_def)
  qed
  have sq0: "0 \<le> sqrt \<rho>" using rho(1) by simp
  have sq1: "sqrt \<rho> \<le> u64 + eta64"
  proof (rule real_le_lsqrt)
    show "0 \<le> u64 + eta64" using u e by simp
    have "1 \<le> u64 + eta64" using u e by simp
    then have "(u64 + eta64) * 1 \<le> (u64 + eta64) * (u64 + eta64)"
      by (intro mult_left_mono) simp_all
    with rho1 show "\<rho> \<le> (u64 + eta64)\<^sup>2" by (simp add: power2_eq_square)
  qed
  have smax: "s \<le> scale_max64"
  proof -
    have "u64 * sqrt \<rho> \<le> u64 * (u64 + eta64)"
      using sq1 u(1) by (intro mult_left_mono) simp_all
    with s(2) show ?thesis by (simp add: scale_max64_def)
  qed
  from limit_area_side [OF w M s(1) smax] obtain kw where
    kw: "int_of_product w s = Inr kw" "0 \<le> kw" "kw \<le> M"
      "real_of_int kw \<le> u64 * (X * s) + eta64"
    by (auto simp: X_def)
  from limit_area_side [OF h M s(1) smax] obtain kh where
    kh: "int_of_product h s = Inr kh" "0 \<le> kh" "kh \<le> M"
      "real_of_int kh \<le> u64 * (Y * s) + eta64"
    by (auto simp: Y_def)
  text \<open>The area.\<close>
  have X0: "0 \<le> X" and Y0: "0 \<le> Y" using w0 h0 u e by (simp_all add: X_def Y_def)
  have ss: "s * s \<le> u64 ^ 3 * q + square_slack64"
  proof -
    have "s * s \<le> (u64 * sqrt \<rho> + eta64) * (u64 * sqrt \<rho> + eta64)"
      using s by (intro mult_mono) simp_all
    also have "\<dots> = u64\<^sup>2 * (sqrt \<rho> * sqrt \<rho>) + 2 * u64 * eta64 * sqrt \<rho> + eta64\<^sup>2"
      by (simp add: power2_eq_square algebra_simps)
    also have "\<dots> = u64\<^sup>2 * \<rho> + 2 * u64 * eta64 * sqrt \<rho> + eta64\<^sup>2"
      using rho(1) by simp
    also have "\<dots> \<le> u64\<^sup>2 * (u64 * q + eta64) + 2 * u64 * eta64 * (u64 + eta64) + eta64\<^sup>2"
    proof -
      have "u64\<^sup>2 * \<rho> \<le> u64\<^sup>2 * (u64 * q + eta64)"
        using rho(2) by (intro mult_left_mono) (simp_all add: q_def a_def)
      moreover have "2 * u64 * eta64 * sqrt \<rho> \<le> 2 * u64 * eta64 * (u64 + eta64)"
        using sq1 u e by (intro mult_left_mono) simp_all
      ultimately show ?thesis by linarith
    qed
    also have "\<dots> = u64 ^ 3 * q + square_slack64"
      by (simp add: square_slack64_def power2_eq_square power3_eq_cube algebra_simps)
    finally show ?thesis .
  qed
  have XY: "X * Y \<le> u64\<^sup>2 * a + sides_slack64"
  proof -
    have "X * Y = u64\<^sup>2 * a + u64 * eta64 * (real_of_int w + real_of_int h) + eta64\<^sup>2"
      by (simp add: X_def Y_def a_def power2_eq_square algebra_simps)
    moreover have "u64 * eta64 * (real_of_int w + real_of_int h) \<le> u64 * eta64 * 2 ^ 51"
      using wM hM u e by (intro mult_left_mono) simp_all
    ultimately show ?thesis by (simp add: sides_slack64_def)
  qed
  have XYss: "X * Y * (s * s) \<le>
      u64 ^ 5 * real_of_int A + u64\<^sup>2 * square_slack64 * 2 ^ 100 + sides_slack64 * u64 ^ 3 +
      sides_slack64 * square_slack64"
  proof -
    have q3: "0 \<le> u64 ^ 3 * q + square_slack64"
      using q(1) u area_numbers(5) by simp
    have a2: "0 \<le> u64\<^sup>2 * a + sides_slack64"
      using a0 area_numbers(6) by simp
    have "X * Y * (s * s) \<le> (u64\<^sup>2 * a + sides_slack64) * (u64 ^ 3 * q + square_slack64)"
      using XY ss X0 Y0 s(1) q3 a2 by (intro mult_mono) simp_all
    also have "\<dots> = u64 ^ 5 * (a * q) + u64\<^sup>2 * square_slack64 * a +
        sides_slack64 * u64 ^ 3 * q + sides_slack64 * square_slack64"
      by (simp add: power2_eq_square power3_eq_cube eval_nat_numeral algebra_simps)
    also have "\<dots> \<le> u64 ^ 5 * real_of_int A + u64\<^sup>2 * square_slack64 * 2 ^ 100 +
        sides_slack64 * u64 ^ 3 * 1 + sides_slack64 * square_slack64"
    proof -
      have "u64\<^sup>2 * square_slack64 * a \<le> u64\<^sup>2 * square_slack64 * 2 ^ 100"
        using a100 area_numbers(5) by (intro mult_left_mono) simp_all
      moreover have "sides_slack64 * u64 ^ 3 * q \<le> sides_slack64 * u64 ^ 3 * 1"
        using q(2) area_numbers(6) u by (intro mult_left_mono) simp_all
      ultimately show ?thesis by (simp add: q(3))
    qed
    finally show ?thesis by simp
  qed
  have sXY: "s * (X + Y) \<le> scale_max64 * (u64 * 2 ^ 51 + 2 * eta64)"
  proof -
    have "X + Y \<le> u64 * 2 ^ 51 + 2 * eta64"
    proof -
      have "u64 * real_of_int w \<le> u64 * 2 ^ 50" "u64 * real_of_int h \<le> u64 * 2 ^ 50"
        using wM hM u by simp_all
      then show ?thesis by (simp add: X_def Y_def)
    qed
    then show ?thesis using smax s(1) X0 Y0 by (intro mult_mono) simp_all
  qed
  have "real_of_int kw * real_of_int kh \<le> (u64 * (X * s) + eta64) * (u64 * (Y * s) + eta64)"
    using kw(2,4) kh(2,4) X0 Y0 s(1) u e by (intro mult_mono) simp_all
  also have "\<dots> = u64\<^sup>2 * (X * Y * (s * s)) + u64 * eta64 * (s * (X + Y)) + eta64\<^sup>2"
    by (simp add: power2_eq_square algebra_simps)
  also have "\<dots> \<le> u64\<^sup>2 * (u64 ^ 5 * real_of_int A + u64\<^sup>2 * square_slack64 * 2 ^ 100 +
      sides_slack64 * u64 ^ 3 + sides_slack64 * square_slack64) +
      u64 * eta64 * (scale_max64 * (u64 * 2 ^ 51 + 2 * eta64)) + eta64\<^sup>2"
  proof -
    have "u64\<^sup>2 * (X * Y * (s * s)) \<le> u64\<^sup>2 * (u64 ^ 5 * real_of_int A +
        u64\<^sup>2 * square_slack64 * 2 ^ 100 + sides_slack64 * u64 ^ 3 +
        sides_slack64 * square_slack64)"
      using XYss by (intro mult_left_mono) simp_all
    moreover have "u64 * eta64 * (s * (X + Y)) \<le>
        u64 * eta64 * (scale_max64 * (u64 * 2 ^ 51 + 2 * eta64))"
      using sXY u e by (intro mult_left_mono) simp_all
    ultimately show ?thesis by linarith
  qed
  also have "\<dots> = u64 ^ 7 * real_of_int A + area_slack64"
    by (simp add: area_slack64_def power2_eq_square eval_nat_numeral algebra_simps)
  finally have prod: "real_of_int (kw * kh) \<le> u64 ^ 7 * real_of_int A + area_slack64"
    by simp
  have "(u64 ^ 7 - 1) * real_of_int A \<le> (u64 ^ 7 - 1) * 2 ^ 50"
    using A50 u by (intro mult_left_mono) (simp_all)
  with prod area_numbers(3) have "real_of_int (kw * kh) < real_of_int A + 1"
    by (simp add: algebra_simps)
  then have "kw * kh \<le> A" by linarith
  with kw(1-3) kh(1-3) show ?thesis by blast
qed

lemma round_down_8:
  fixes x :: int
  assumes "0 \<le> x"
  shows "0 \<le> (x div 8) * 8" and "(x div 8) * 8 \<le> x" and "8 dvd (x div 8) * 8"
  using assms by simp_all

lemma resolution_bounds_binary64:
  assumes w: "0 < w" "w < 2 ^ 1024 - 2 ^ 970" and h: "0 < h" "h < 2 ^ 1024 - 2 ^ 970"
    and A: "0 \<le> max_area" "max_area \<le> 2 ^ 50"
    and M: "0 \<le> max_side" "max_side \<le> 2 ^ 50"
  shows "\<exists>res. calculate_adjusted_resolution w h max_area max_side = Inr res \<and>
           within_bounds max_area max_side res"
proof -
  let ?stage1 =
    "if w > max_side \<or> h > max_side then
       (case true_divide max_side (max w h) of
          Inl e \<Rightarrow> Inl e
        | Inr scale \<Rightarrow>
            (case int_of_product w scale of
               Inl e \<Rightarrow> Inl e
             | Inr width' \<Rightarrow>
                 (case int_of_product h scale of
                    Inl e \<Rightarrow> Inl e
                  | Inr height' \<Rightarrow> Inr (width', height'))))
     else Inr (w, h)"
  have "\<exists>w1 h1. ?stage1 = Inr (w1, h1) \<and> 0 \<le> w1 \<and> w1 \<le> max_side \<and>
          0 \<le> h1 \<and> h1 \<le> max_side"
  proof (cases "w > max_side \<or> h > max_side")
    case True
    then have m: "max_side < max w h" by auto
    then have m0: "0 < max w h" and Mm: "max_side \<le> max w h" using M by linarith+
    have "max w h < 2 ^ 1024 - 2 ^ 970" using w h by simp
    then have mH: "real_of_int (max w h) < 2 ^ 1024 - 2 ^ 970"
      using of_int_less_iff [of "max w h" "2 ^ 1024 - 2 ^ 970", where ?'a = real] by simp
    from true_divide_bounds [OF M(1) m0 Mm] obtain s where
      s: "true_divide max_side (max w h) = Inr s" "0 \<le> s"
        "s \<le> u64 * (real_of_int max_side / real_of_int (max w h)) + eta64"
      by blast
    have "w \<le> max w h" "h \<le> max w h" by simp_all
    from limit_side [OF w(1) this(1) mH M(1) m M(2) s(2,3)]
      limit_side [OF h(1) this(2) mH M(1) m M(2) s(2,3)]
    obtain kw kh where "int_of_product w s = Inr kw" "0 \<le> kw" "kw \<le> max_side"
      "int_of_product h s = Inr kh" "0 \<le> kh" "kh \<le> max_side"
      by blast
    then show ?thesis using True s(1) by simp
  next
    case False
    then show ?thesis using w h by simp
  qed
  then obtain w1 h1 where s1: "?stage1 = Inr (w1, h1)"
    and w1: "0 \<le> w1" "w1 \<le> max_side" and h1: "0 \<le> h1" "h1 \<le> max_side"
    by blast
  let ?stage2 =
    "if w1 * h1 > max_area then
       (case true_divide max_area (w1 * h1) of
          Inl e \<Rightarrow> Inl e
        | Inr ratio \<Rightarrow>
            (case math_sqrt ratio of
               Inl e \<Rightarrow> Inl e
             | Inr scale \<Rightarrow>
                 (case int_of_product w1 scale of
                    Inl e \<Rightarrow> Inl e
                  | Inr width' \<Rightarrow>
                      (case int_of_product h1 scale of
                         Inl e \<Rightarrow> Inl e
                       | Inr height' \<Rightarrow> Inr (width', height')))))
     else Inr (w1, h1)"
  have "\<exists>w2 h2. ?stage2 = Inr (w2, h2) \<and> 0 \<le> w2 \<and> w2 \<le> max_side \<and>
          0 \<le> h2 \<and> h2 \<le> max_side \<and> w2 * h2 \<le> max_area"
  proof (cases "w1 * h1 > max_area")
    case True
    then have a0: "0 < w1 * h1" and Aa: "max_area \<le> w1 * h1" using A by linarith+
    from true_divide_bounds [OF A(1) a0 Aa] obtain \<rho> where
      r: "true_divide max_area (w1 * h1) = Inr \<rho>" "0 \<le> \<rho>"
        "\<rho> \<le> u64 * (real_of_int max_area / real_of_int (w1 * h1)) + eta64"
      by blast
    from math_sqrt_bounds [OF r(2)] obtain s where
      s: "math_sqrt \<rho> = Inr s" "0 \<le> s" "s \<le> u64 * sqrt \<rho> + eta64"
      by blast
    from limit_area [OF w1 h1 M(2) A True r(2,3) s(2,3)]
    obtain kw kh where "int_of_product w1 s = Inr kw"
      "int_of_product h1 s = Inr kh"
      "0 \<le> kw" "kw \<le> max_side" "0 \<le> kh" "kh \<le> max_side" "kw * kh \<le> max_area"
      by blast
    then show ?thesis using True r(1) s(1) by simp
  next
    case False
    then show ?thesis using w1 h1 by simp
  qed
  then obtain w2 h2 where s2: "?stage2 = Inr (w2, h2)"
    and w2: "0 \<le> w2" "w2 \<le> max_side" and h2: "0 \<le> h2" "h2 \<le> max_side"
    and a2: "w2 * h2 \<le> max_area"
    by blast
  have res: "calculate_adjusted_resolution w h max_area max_side =
      Inr ((w2 div 8) * 8, (h2 div 8) * 8)"
    unfolding calculate_adjusted_resolution_def s1 by (simp add: Let_def s2)
  have "(w2 div 8) * 8 * ((h2 div 8) * 8) \<le> w2 * h2"
    using round_down_8 [OF w2(1)] round_down_8 [OF h2(1)] by (intro mult_mono) simp_all
  with a2 have "(w2 div 8) * 8 * ((h2 div 8) * 8) \<le> max_area" by linarith
  moreover have "(w2 div 8) * 8 \<le> max_side" "(h2 div 8) * 8 \<le> max_side"
    using round_down_8 (2) [OF w2(1)] round_down_8 (2) [OF h2(1)] w2(2) h2(2) by linarith+
  ultimately have "within_bounds max_area max_side ((w2 div 8) * 8, (h2 div 8) * 8)"
    by (simp add: within_bounds_def)
  with res show ?thesis by blast
qed

text \<open>Five runs, as binary64 computes them.\<close>

lemma overflow_run:
  "calculate_adjusted_resolution (2 ^ 1024) 1 (1536 * 1536) 2048 = Inl OverflowError"
  by (simp add: calculate_adjusted_resolution_def true_divide_def int_of_product_def
      int_to_float_def huge64_def)

lemma scale_2_56_15:
  "true_divide (2 ^ 56 + 15) (2 ^ 57) = Inr (1 / 2 + 1 / 2 ^ 53)"
proof -
  have "binary64_round ((2 ^ 56 + 15) / 2 ^ 57) = 1 / 2 + 1 / 2 ^ 53"
    by (subst binary64_round_eq [where e = "- 1"])
      (simp_all add: pow2_def py_round_def Let_def)
  then show ?thesis
    by (simp add: true_divide_def huge64_def)
qed

lemma rounded_up_run:
  "calculate_adjusted_resolution (2 ^ 57) 1 (1536 * 1536) (2 ^ 56 + 15) =
     Inr (2 ^ 56 + 16, 0)"
proof -
  have p1: "int_of_product (2 ^ 57) (1 / 2 + 1 / 2 ^ 53) = Inr (2 ^ 56 + 16)"
    by (simp add: int_of_product_def int_to_float_def float_mul_def int_of_float_def
        huge64_def binary64_round_numerals py_int_def)
  have p2: "int_of_product 1 (1 / 2 + 1 / 2 ^ 53) = Inr 0"
    by (simp add: int_of_product_def int_to_float_def float_mul_def int_of_float_def
        huge64_def binary64_round_numerals py_int_def)
  from scale_2_56_15 p1 p2 show ?thesis
    by (simp add: calculate_adjusted_resolution_def)
qed

lemma ratio_9_16: "true_divide (9 * 2 ^ 52 - 1) (2 ^ 28 * 2 ^ 28) = Inr (9 / 16)"
proof -
  have "binary64_round ((9 * 2 ^ 52 - 1) / 2 ^ 56) = 9 / 16"
    by (subst binary64_round_eq [where e = "- 1"])
      (simp_all add: pow2_def py_round_def Let_def)
  then show ?thesis
    by (simp add: true_divide_def huge64_def)
qed

lemma area_run:
  "calculate_adjusted_resolution (2 ^ 28) (2 ^ 28) (9 * 2 ^ 52 - 1) (2 ^ 50) =
     Inr (3 * 2 ^ 26, 3 * 2 ^ 26)"
proof -
  have s: "math_sqrt (9 / 16) = Inr (3 / 4)"
    by (simp add: math_sqrt_def huge64_def sqrt_9_16 binary64_round_more_values)
  have p: "int_of_product (2 ^ 28) (3 / 4) = Inr (3 * 2 ^ 26)"
    by (simp add: int_of_product_def int_to_float_def float_mul_def int_of_float_def
        huge64_def binary64_round_more_values py_int_def)
  from ratio_9_16 s p show ?thesis
    by (simp add: calculate_adjusted_resolution_def)
qed

lemma negative_run:
  "calculate_adjusted_resolution 1 1 10 (- 1) = Inr (- 8, - 8)"
proof -
  have s: "true_divide (- 1) 1 = Inr (- 1)"
    by (simp add: true_divide_def huge64_def binary64_round_numerals)
  have p: "int_of_product 1 (- 1) = Inr (- 1)"
    by (simp add: int_of_product_def int_to_float_def float_mul_def int_of_float_def
        huge64_def binary64_round_numerals py_int_def ceiling_minus)
  from s p show ?thesis
    by (simp add: calculate_adjusted_resolution_def)
qed

lemma negative_area_run:
  "calculate_adjusted_resolution 8 8 (- 1) 2048 =
     Inl (ValueError ''math domain error'')"
proof -
  have r: "true_divide (- 1) (8 * 8) = Inr (- (1 / 64))"
    by (simp add: true_divide_def huge64_def binary64_round_more_values)
  from r show ?thesis
    by (simp add: calculate_adjusted_resolution_def math_sqrt_def)
qed

lemma halving_run:
  "calculate_adjusted_resolution 4096 4096 (1024 * 1024) 2048 = Inr (1024, 1024)"
proof -
  have d: "true_divide 2048 4096 = Inr (1 / 2)"
    "true_divide (1024 * 1024) (2048 * 2048) = Inr (1 / 4)"
    by (simp_all add: true_divide_def huge64_def binary64_round_more_values)
  have s: "math_sqrt (1 / 4) = Inr (1 / 2)"
    by (simp add: math_sqrt_def huge64_def sqrt_1_4 binary64_round_more_values)
  have p: "int_of_product 4096 (1 / 2) = Inr 2048"
    "int_of_product 2048 (1 / 2) = Inr 1024"
    by (simp_all add: int_of_product_def int_to_float_def float_mul_def int_of_float_def
        huge64_def binary64_round_more_values py_int_def)
  from d s p show ?thesis
    by (simp add: calculate_adjusted_resolution_def)
qed

text \<open>
  C1, as stated, fails. A width of \<open>2 ^ 1024\<close> is a positive integer that Python cannot
  convert to a float: with the bounds of the driver the call raises \<open>OverflowError\<close> and
  returns no pair. With \<open>max_side = 2 ^ 56 + 15\<close> the scale \<open>max_side / 2 ^ 57\<close> rounds
  up and the width returned is \<open>2 ^ 56 + 16\<close>, above \<open>max_side\<close>. With
  \<open>max_area = 9 * 2 ^ 52 - 1\<close> the ratio \<open>max_area / 2 ^ 56\<close> rounds up to \<open>9 / 16\<close> and
  the area returned is \<open>9 * 2 ^ 52\<close>, above \<open>max_area\<close>. With \<open>max_side = -1\<close> the pair
  returned is \<open>(-8, -8)\<close>, whose product 64 exceeds \<open>max_area = 10\<close>, and with
  \<open>max_area = -1\<close> the call raises \<open>ValueError\<close>.
\<close>

theorem calculate_adjusted_resolution_counterexample:
  "calculate_adjusted_resolution (2 ^ 1024) 1 (1536 * 1536) 2048 = Inl OverflowError \<and>
   calculate_adjusted_resolution (2 ^ 57) 1 (1536 * 1536) (2 ^ 56 + 15) =
     Inr (2 ^ 56 + 16, 0) \<and>
   \<not> within_bounds (1536 * 1536) (2 ^ 56 + 15) (2 ^ 56 + 16, 0) \<and>
   calculate_adjusted_resolution (2 ^ 28) (2 ^ 28) (9 * 2 ^ 52 - 1) (2 ^ 50) =
     Inr (3 * 2 ^ 26, 3 * 2 ^ 26) \<and>
   \<not> within_bounds (9 * 2 ^ 52 - 1) (2 ^ 50) (3 * 2 ^ 26, 3 * 2 ^ 26) \<and>
   calculate_adjusted_resolution 1 1 10 (- 1) = Inr (- 8, - 8) \<and>
   \<not> within_bounds 10 (- 1) (- 8, - 8) \<and>
   calculate_adjusted_resolution 8 8 (- 1) 2048 = Inl (ValueError ''math domain error'')"
proof -
  have "\<not> within_bounds (1536 * 1536) (2 ^ 56 + 15) (2 ^ 56 + 16, 0)"
    "\<not> within_bounds (9 * 2 ^ 52 - 1) (2 ^ 50) (3 * 2 ^ 26, 3 * 2 ^ 26)"
    "\<not> within_bounds 10 (- 1) (- 8, - 8)"
    by (simp_all add: within_bounds_def)
  with overflow_run rounded_up_run area_run negative_run negative_area_run
  show ?thesis by (simp only: simp_thms)
qed

text \<open>
  C1 (amended): for every positive integer width and height below \<open>2 ^ 1024 - 2 ^ 970\<close>
  (the integers that Python converts to a float) and every \<open>max_area\<close> and \<open>max_side\<close>
  from \<open>0\<close> to \<open>2 ^ 50\<close>, \<open>calculate_adjusted_resolution\<close> returns a pair \<open>(w, h)\<close>
  such that \<open>w\<close> and \<open>h\<close> are multiples of 8, \<open>w \<le> max_side\<close>, \<open>h \<le> max_side\<close> and
  \<open>w * h \<le> max_area\<close>.
\<close>

theorem calculate_adjusted_resolution_bounds:
  assumes "0 < w" and "w < 2 ^ 1024 - 2 ^ 970" and "0 < h" and "h < 2 ^ 1024 - 2 ^ 970"
    and "0 \<le> max_area" and "max_area \<le> 2 ^ 50"
    and "0 \<le> max_side" and "max_side \<le> 2 ^ 50"
  shows "\<exists>res. calculate_adjusted_resolution w h max_area max_side = Inr res \<and>
           within_bounds max_area max_side res"
  using assms by (rule resolution_bounds_binary64)

text \<open>
  The instance of C1 (amended) at an image of 4096 by 4096 pixels, which both scalings
  halve.
\<close>

theorem calculate_adjusted_resolution_bounds_witness:
  "calculate_adjusted_resolution 4096 4096 (1024 * 1024) 2048 = Inr (1024, 1024) \<and>
   within_bounds (1024 * 1024) 2048 (1024, 1024)"
proof -
  have "\<exists>res. calculate_adjusted_resolution 4096 4096 (1024 * 1024) 2048 = Inr res \<and>
      within_bounds (1024 * 1024) 2048 res"
    by (rule calculate_adjusted_resolution_bounds) simp_all
  with halving_run show ?thesis by auto
qed

section \<open>Properties of the generation driver and of the cleanup script\<close>

lemma process_generated_entry:
  "generated info = Some True \<Longrightarrow>
   process_image_entry env args a dir url (n, info) w = (Inr (), w)"
  by (simp add: process_image_entry_def)

lemma images_loop_append:
  "images_loop env args a dir url (xs @ ys) w =
     (case images_loop env args a dir url xs w of
        (Inl e, w1) \<Rightarrow> (Inl e, w1)
      | (Inr u, w1) \<Rightarrow> images_loop env args a dir url ys w1)"
  by (induction xs arbitrary: w) (auto split: prod.splits sum.splits)

lemma map_of_map_values:
  "map_of (map (\<lambda>(k, v). (k, f k v)) xs) k = map_option (f k) (map_of xs k)"
  by (induction xs) auto

lemma entry_of_mark_generated:
  "entry_of (mark_generated a n m) a' n' =
     map_option (\<lambda>info. if a' = a \<and> n' = n then info\<lparr>generated := Some True\<rparr> else info)
       (entry_of m a' n')"
proof -
  let ?g = "\<lambda>k info. if k = n then info\<lparr>generated := Some True\<rparr> else info"
  let ?f = "\<lambda>k images. if k = a then map (\<lambda>(k, v). (k, ?g k v)) images else images"
  have m: "mark_generated a n m = map (\<lambda>(k, v). (k, ?f k v)) m"
    by (simp add: mark_generated_def)
  show ?thesis
    unfolding entry_of_def m map_of_map_values
    by (cases "map_of m a'")
      (simp_all add: map_of_map_values option.map_ident [unfolded id_def])
qed

lemma keeps_generated_refl: "keeps_generated m m"
  by (simp add: keeps_generated_def)

lemma keeps_generated_trans:
  "keeps_generated m1 m2 \<Longrightarrow> keeps_generated m2 m3 \<Longrightarrow> keeps_generated m1 m3"
  by (simp add: keeps_generated_def)

lemma keeps_generated_mark: "keeps_generated m (mark_generated a n m)"
  by (auto simp: keeps_generated_def entry_of_mark_generated)

lemma data_save_images:
  "data (snd (save_images env dir base i images w)) = data w"
  by (induction images arbitrary: i w) (auto simp: Let_def split: sum.splits option.splits)

lemma data_fetch: "data (snd (fetch_image_from_api env url body w)) = data w"
  by (simp add: fetch_image_from_api_def Let_def split: sum.splits)

lemma data_try_block:
  "keeps_generated (data w) (data (snd (try_block env args a dir url n info w)))"
proof -
  have "data (snd (try_block env args a dir url n info w)) = data w \<or>
        data (snd (try_block env args a dir url n info w)) = mark_generated a n (data w)"
    using data_fetch [of env url _ w] data_save_images [of env dir "stem env n" 0]
    by (auto simp: try_block_def Let_def split: sum.splits prod.splits option.splits)
      (metis snd_conv)+
  then show ?thesis
    using keeps_generated_refl keeps_generated_mark by metis
qed

lemma data_process_image_entry:
  "keeps_generated (data w)
     (data (snd (process_image_entry env args a dir url entry w)))"
proof (cases entry)
  case (Pair n info)
  show ?thesis
    using data_try_block [of w env args a dir url n info]
    by (auto simp: process_image_entry_def Pair keeps_generated_refl
        split: prod.splits sum.splits)
qed

lemma data_images_loop:
  "keeps_generated (data w) (data (snd (images_loop env args a dir url entries w)))"
proof (induction entries arbitrary: w)
  case Nil
  show ?case by (simp add: keeps_generated_refl)
next
  case (Cons entry entries)
  obtain r w1 where step: "process_image_entry env args a dir url entry w = (r, w1)"
    by (cases "process_image_entry env args a dir url entry w")
  have k1: "keeps_generated (data w) (data w1)"
    using data_process_image_entry [of w env args a dir url entry] by (simp add: step)
  show ?case
  proof (cases r)
    case (Inl e)
    then show ?thesis using k1 by (simp add: step)
  next
    case (Inr u)
    then show ?thesis
      using keeps_generated_trans [OF k1 Cons.IH [of w1]] by (simp add: step)
  qed
qed

lemma data_process_artist_images:
  "keeps_generated (data w)
     (data (snd (process_artist_images env a entries out url args w)))"
  using data_images_loop [of "w\<lparr>dirs := dirs w @ [out @ ''/'' @ a]\<rparr>"]
  by (simp add: process_artist_images_def Let_def keeps_generated_refl split: option.splits)

text \<open>
  C7: for every manifest entry whose record has \<open>generated\<close> equal to true, the round
  of the loop for it returns at once and leaves the whole world as it was: no request is
  sent, no file is saved and no record changes; \<open>process_artist_images\<close> with the
  entry among its items does exactly what it does without it; and a record marked
  generated in the manifest is still the same record after \<open>process_artist_images\<close>,
  whatever entries it has processed.
\<close>

theorem generated_entries_skipped:
  "(generated info = Some True \<longrightarrow>
      process_image_entry env args a dir url (n, info) w = (Inr (), w) \<and>
      process_artist_images env a (before @ (n, info) # after) out url args w =
        process_artist_images env a (before @ after) out url args w) \<and>
   (entry_of (data w) a' n' = Some info' \<and> generated info' = Some True \<longrightarrow>
      entry_of (data (snd (process_artist_images env a entries out url args w))) a' n' =
        Some info')"
proof (intro conjI impI)
  assume g: "generated info = Some True"
  show "process_image_entry env args a dir url (n, info) w = (Inr (), w)"
    by (rule process_generated_entry [OF g])
  have skip: "images_loop env args a d url (before @ (n, info) # after) v =
        images_loop env args a d url (before @ after) v" for d v
    by (simp add: images_loop_append process_generated_entry [OF g]
        split: prod.splits sum.splits)
  show "process_artist_images env a (before @ (n, info) # after) out url args w =
        process_artist_images env a (before @ after) out url args w"
    unfolding process_artist_images_def skip ..
next
  assume "entry_of (data w) a' n' = Some info' \<and> generated info' = Some True"
  with data_process_artist_images [of w env a entries out url args]
  show "entry_of (data (snd (process_artist_images env a entries out url args w))) a' n' =
        Some info'"
    unfolding keeps_generated_def by blast
qed

text \<open>
  The instance of C7 at the manifest with one generated and one pending image.
\<close>

theorem generated_entries_skipped_witness:
  "process_image_entry offline_env demo_args ''artist'' ''temp/artist'' ''url''
     (''a.png'', done_info) demo_world = (Inr (), demo_world) \<and>
   process_artist_images offline_env ''artist'' ([] @ (''a.png'', done_info) # [(''b.png'', todo_info)])
     ''temp'' ''url'' demo_args demo_world =
   process_artist_images offline_env ''artist'' ([] @ [(''b.png'', todo_info)])
     ''temp'' ''url'' demo_args demo_world \<and>
   entry_of (data (snd (process_artist_images offline_env ''artist''
       [(''a.png'', done_info), (''b.png'', todo_info)] ''temp'' ''url'' demo_args demo_world)))
     ''artist'' ''a.png'' = Some done_info"
proof -
  have g: "generated done_info = Some True"
    by (simp add: done_info_def)
  have e: "entry_of (data demo_world) ''artist'' ''a.png'' = Some done_info"
    by (simp add: demo_world_def demo_manifest_def entry_of_def)
  note inst = generated_entries_skipped
    [where info = done_info and info' = done_info and w = demo_world and a' = "''artist''"
       and n' = "''a.png''" and env = offline_env and args = demo_args and a = "''artist''"
       and dir = "''temp/artist''" and url = "''url''" and n = "''a.png''" and before = "[]"
       and after = "[(''b.png'', todo_info)]" and out = "''temp''"
       and entries = "[(''a.png'', done_info), (''b.png'', todo_info)]"]
  from inst g e show ?thesis by blast
qed

lemma float_operations_raise:
  "int_to_float n = Inl e \<Longrightarrow> is_Exception e"
  "true_divide a b = Inl e \<Longrightarrow> is_Exception e"
  "math_sqrt x = Inl e \<Longrightarrow> is_Exception e"
  "int_of_float y = Inl e \<Longrightarrow> is_Exception e"
  by (auto simp: int_to_float_def true_divide_def math_sqrt_def int_of_float_def
      split: if_splits option.splits)

lemma int_of_product_raises: "int_of_product n s = Inl e \<Longrightarrow> is_Exception e"
  by (auto simp: int_of_product_def split: sum.splits dest: float_operations_raise)

lemma calculate_adjusted_resolution_raises:
  "calculate_adjusted_resolution w h A M = Inl e \<Longrightarrow> is_Exception e"
  unfolding calculate_adjusted_resolution_def Let_def
  by (auto split: if_splits sum.splits prod.splits
      dest: float_operations_raise int_of_product_raises)

lemma fetch_raises:
  "only_Exceptions env \<Longrightarrow> fst (fetch_image_from_api env url body w) \<noteq> Inl e"
  by (auto simp: fetch_image_from_api_def only_Exceptions_def Let_def split: sum.splits)

lemma save_images_raises:
  "only_Exceptions env \<Longrightarrow> fst (save_images env dir base i images w) = Inl e \<Longrightarrow>
   is_Exception e"
proof (induction images arbitrary: i w)
  case Nil
  then show ?case by simp
next
  case (Cons b images)
  show ?case
  proof (cases "decode env b")
    case (Inl x)
    with Cons.prems show ?thesis by (auto simp: only_Exceptions_def)
  next
    case (Inr img)
    show ?thesis
    proof (cases "save env w (dir @ ''/'' @ base @ ''_DPO'' @ str_nat (i + 1) @ ''.webp'') img")
      case None
      with Cons.prems(2) Inr Cons.IH [OF Cons.prems(1)] show ?thesis
        by (simp add: Let_def)
    next
      case (Some x)
      with Cons.prems Inr show ?thesis by (auto simp: only_Exceptions_def Let_def)
    qed
  qed
qed

lemma try_block_raises:
  assumes "only_Exceptions env"
    and "fst (try_block env args a dir url n info w) = Inl e"
  shows "is_Exception e"
proof -
  note f = fetch_raises [OF assms(1)]
  note s = save_images_raises [OF assms(1)]
  from assms(2) show ?thesis
    unfolding try_block_def
    apply (simp split: sum.splits prod.splits add: Let_def)
    subgoal using calculate_adjusted_resolution_raises by blast
    subgoal using f by (metis fst_conv)
    subgoal using s by (metis fst_conv)
    subgoal using assms(1) by (auto simp: only_Exceptions_def split: option.splits)
    done
qed

lemma process_image_entry_returns:
  assumes "only_Exceptions env"
  shows "fst (process_image_entry env args a dir url entry w) = Inr ()"
proof (cases entry)
  case (Pair n info)
  show ?thesis
    using try_block_raises [OF assms, of args a dir url n info w]
    by (auto simp: process_image_entry_def Pair split: prod.splits sum.splits)
qed

lemma images_loop_returns:
  assumes "only_Exceptions env"
  shows "fst (images_loop env args a dir url entries w) = Inr ()"
proof (induction entries arbitrary: w)
  case Nil
  show ?case by simp
next
  case (Cons entry entries)
  obtain r w1 where step: "process_image_entry env args a dir url entry w = (r, w1)"
    by (cases "process_image_entry env args a dir url entry w")
  with process_image_entry_returns [OF assms, of args a dir url entry w]
  have "r = Inr ()" by simp
  with Cons.IH [of w1] show ?case by (simp add: step)
qed

lemma filenames_loop_returns:
  assumes "\<forall>st p x. unlink st p = Some x \<longrightarrow> is_Exception x"
  shows "fst (filenames_loop unlink dirpath filenames st) = Inr ()"
  using assms
  by (induction filenames arbitrary: st) (auto simp: Let_def split: option.splits)

lemma walk_loop_returns:
  assumes "\<forall>st p x. unlink st p = Some x \<longrightarrow> is_Exception x"
  shows "fst (walk_loop unlink walked st) = Inr ()"
proof (induction walked arbitrary: st)
  case Nil
  show ?case by simp
next
  case (Cons d walked)
  obtain dirpath dirnames filenames where d: "d = (dirpath, dirnames, filenames)"
    by (cases d)
  obtain r st1 where step: "filenames_loop unlink dirpath filenames st = (r, st1)"
    by (cases "filenames_loop unlink dirpath filenames st")
  with filenames_loop_returns [OF assms, of dirpath filenames st]
  have "r = Inr ()" by simp
  with Cons.IH [of st1] show ?case by (simp add: d step)
qed

text \<open>
  C8: an exception of class \<open>Exception\<close> raised inside the \<open>try\<close> statement of the
  driver (by the resolution computation, the decoding or saving of an image, or the
  writing of the manifest) is caught: a line is printed and the loop goes on with the
  next item, from the world the failed item left. When nothing outside the class
  \<open>Exception\<close> is raised, the loop returns normally whatever fails. The same holds for
  the cleanup script: a failed \<open>unlink\<close> is printed and the loop goes on with the next
  file name, and the whole walk returns normally. An exception of the request itself is
  caught one level down: \<open>fetch_image_from_api\<close> prints it and returns no image.
\<close>

theorem per_item_failures_caught:
  "(generated info \<noteq> Some True \<and>
    try_block env args a dir url n info w = (Inl e, w1) \<and> is_Exception e \<longrightarrow>
      images_loop env args a dir url ((n, info) # rest) w =
        images_loop env args a dir url rest
          (w1\<lparr>stdout := stdout w1 @ [ProcessError n a e]\<rparr>)) \<and>
   (only_Exceptions env \<longrightarrow> fst (images_loop env args a dir url entries w) = Inr ()) \<and>
   (unlink st (dirpath @ ''/'' @ ''process.mark'') = Some x \<and> is_Exception x \<longrightarrow>
      filenames_loop unlink dirpath (''process.mark'' # others) st =
        filenames_loop unlink dirpath others
          (st\<lparr>delete_stdout :=
                delete_stdout st @ [DeleteError (dirpath @ ''/'' @ ''process.mark'') x]\<rparr>)) \<and>
   ((\<forall>st p x. unlink st p = Some x \<longrightarrow> is_Exception x) \<longrightarrow>
      fst (delete_process_mark_files walk unlink root_path st) = Inr ()) \<and>
   (post env w url body = Inl e \<and> is_Exception e \<longrightarrow>
      fetch_image_from_api env url body w =
        (Inr [], w\<lparr>requests := requests w @ [(url, body)],
                   stdout := stdout w @ [ApiError e]\<rparr>))"
proof (intro conjI impI)
  assume "generated info \<noteq> Some True \<and>
    try_block env args a dir url n info w = (Inl e, w1) \<and> is_Exception e"
  then show "images_loop env args a dir url ((n, info) # rest) w =
        images_loop env args a dir url rest
          (w1\<lparr>stdout := stdout w1 @ [ProcessError n a e]\<rparr>)"
    by (simp add: process_image_entry_def)
next
  assume "only_Exceptions env"
  then show "fst (images_loop env args a dir url entries w) = Inr ()"
    by (rule images_loop_returns)
next
  assume "unlink st (dirpath @ ''/'' @ ''process.mark'') = Some x \<and> is_Exception x"
  then show "filenames_loop unlink dirpath (''process.mark'' # others) st =
        filenames_loop unlink dirpath others
          (st\<lparr>delete_stdout :=
                delete_stdout st @ [DeleteError (dirpath @ ''/'' @ ''process.mark'') x]\<rparr>)"
    by (simp add: Let_def)
next
  assume "\<forall>st p x. unlink st p = Some x \<longrightarrow> is_Exception x"
  then show "fst (delete_process_mark_files walk unlink root_path st) = Inr ()"
    unfolding delete_process_mark_files_def by (rule walk_loop_returns)
next
  assume "post env w url body = Inl e \<and> is_Exception e"
  then show "fetch_image_from_api env url body w =
        (Inr [], w\<lparr>requests := requests w @ [(url, body)],
                   stdout := stdout w @ [ApiError e]\<rparr>)"
    by (simp add: fetch_image_from_api_def Let_def)
qed

lemma demo_resolution:
  "calculate_adjusted_resolution 1000 1000 2359296 2048 = Inr (1000, 1000)"
  by (simp add: calculate_adjusted_resolution_def)

lemma garbled_try_block:
  "try_block garbled_env demo_args ''artist'' ''temp/artist'' ''url'' ''b.png'' todo_info
     demo_world =
   (Inl (ValueError ''cannot identify image file''),
    demo_world\<lparr>requests := [(''url'', demo_request)]\<rparr>)"
  by (simp add: try_block_def garbled_env_def offline_env_def demo_args_def todo_info_def
      demo_world_def demo_request_def demo_resolution fetch_image_from_api_def
      build_image_data_def Let_def)

text \<open>
  The instance of C8 where every image fails to decode and every deletion is refused.
\<close>

theorem per_item_failures_caught_witness:
  "images_loop garbled_env demo_args ''artist'' ''temp/artist'' ''url''
     ((''b.png'', todo_info) # [(''c.png'', todo_info)]) demo_world =
   images_loop garbled_env demo_args ''artist'' ''temp/artist'' ''url''
     [(''c.png'', todo_info)]
     (demo_world\<lparr>requests := [(''url'', demo_request)],
        stdout := [ProcessError ''b.png'' ''artist''
                     (ValueError ''cannot identify image file'')]\<rparr>) \<and>
   fst (images_loop garbled_env demo_args ''artist'' ''temp/artist'' ''url''
     [(''b.png'', todo_info), (''c.png'', todo_info)] demo_world) = Inr () \<and>
   filenames_loop denied_unlink ''root'' (''process.mark'' # [''a.png'']) empty_delete_state =
   filenames_loop denied_unlink ''root'' [''a.png'']
     (empty_delete_state\<lparr>delete_stdout :=
        [DeleteError ''root/process.mark'' (OSError ''permission denied'')]\<rparr>) \<and>
   fst (delete_process_mark_files demo_walk denied_unlink ''root'' empty_delete_state) = Inr () \<and>
   fetch_image_from_api offline_env ''url'' demo_request demo_world =
     (Inr [],
      demo_world\<lparr>requests := [(''url'', demo_request)],
        stdout := [ApiError (OSError ''connection refused'')]\<rparr>)"
proof -
  have g: "only_Exceptions garbled_env"
    by (auto simp: only_Exceptions_def garbled_env_def offline_env_def)
  have t: "generated todo_info \<noteq> Some True"
    by (simp add: todo_info_def)
  have x: "is_Exception (ValueError ''cannot identify image file'')"
    by simp
  have u: "denied_unlink empty_delete_state (''root'' @ ''/'' @ ''process.mark'') =
      Some (OSError ''permission denied'')"
    by (simp add: denied_unlink_def)
  have y: "is_Exception (OSError ''permission denied'')"
    by simp
  have a: "\<forall>st p x. denied_unlink st p = Some x \<longrightarrow> is_Exception x"
    by (auto simp: denied_unlink_def)
  have f: "post offline_env demo_world ''url'' demo_request =
      Inl (OSError ''connection refused'')"
    by (simp add: offline_env_def)
  have z: "is_Exception (OSError ''connection refused'')"
    by simp
  have q: "requests demo_world = []" "stdout demo_world = []"
    by (simp_all add: demo_world_def)
  note fetch = per_item_failures_caught
      [where env = offline_env and w = demo_world and url = "''url''" and body = demo_request
         and e = "OSError ''connection refused''",
       THEN conjunct2, THEN conjunct2, THEN conjunct2, THEN conjunct2]
  note inst = per_item_failures_caught
      [where env = garbled_env and args = demo_args and a = "''artist''"
         and dir = "''temp/artist''" and url = "''url''" and n = "''b.png''"
         and info = todo_info and w = demo_world
         and e = "ValueError ''cannot identify image file''"
         and ?w1.0 = "demo_world\<lparr>requests := [(''url'', demo_request)]\<rparr>"
         and rest = "[(''c.png'', todo_info)]"
         and entries = "[(''b.png'', todo_info), (''c.png'', todo_info)]"
         and unlink = denied_unlink and st = empty_delete_state and dirpath = "''root''"
         and x = "OSError ''permission denied''" and others = "[''a.png'']"
         and walk = demo_walk and root_path = "''root''"]
  have e1: "stdout (demo_world\<lparr>requests := [(''url'', demo_request)]\<rparr>) = []"
    by (simp add: demo_world_def)
  have e2: "delete_stdout empty_delete_state = []"
    by (simp add: empty_delete_state_def)
  have e3: "''root'' @ ''/'' @ ''process.mark'' = ''root/process.mark''"
    by simp
  from fetch f z have "fetch_image_from_api offline_env ''url'' demo_request demo_world =
     (Inr [],
      demo_world\<lparr>requests := [(''url'', demo_request)],
        stdout := [ApiError (OSError ''connection refused'')]\<rparr>)"
    unfolding q append_Nil by blast
  with inst g t x u y a garbled_try_block show ?thesis
    unfolding e1 e2 e3 append_Nil by blast
qed

text \<open>
  C10: when the request raises an exception of class \<open>Exception\<close>,
  \<open>fetch_image_from_api\<close> logs it and returns the empty list; the round of the loop
  then saves no image, sets the flag of the entry and, the manifest file being writable,
  appends the updated manifest to what has been written. The record of the entry in that
  manifest is the old one with \<open>generated\<close> true, and a round of the loop on that record
  does nothing, in any run.
\<close>

theorem failed_request_marks_generated:
  assumes res: "calculate_adjusted_resolution (width info) (height info)
                  (max_arg args * max_arg args) 2048 = Inr res"
    and todo: "generated info \<noteq> Some True"
    and post: "post env w url (build_image_data env args w info res) = Inl e"
    and exc: "is_Exception e"
    and dump: "dump env
                 (w\<lparr>requests := requests w @ [(url, build_image_data env args w info res)],
                    stdout := stdout w @ [ApiError e],
                    data := mark_generated a n (data w)\<rparr>)
                 (json_path args) (mark_generated a n (data w)) = None"
  shows "fetch_image_from_api env url (build_image_data env args w info res) w =
           (Inr [],
            w\<lparr>requests := requests w @ [(url, build_image_data env args w info res)],
              stdout := stdout w @ [ApiError e]\<rparr>) \<and>
         process_image_entry env args a dir url (n, info) w =
           (Inr (),
            w\<lparr>requests := requests w @ [(url, build_image_data env args w info res)],
              stdout := stdout w @ [ApiError e],
              data := mark_generated a n (data w),
              written := written w @ [mark_generated a n (data w)]\<rparr>) \<and>
         saved (snd (process_image_entry env args a dir url (n, info) w)) = saved w \<and>
         (entry_of (data w) a n = Some info \<longrightarrow>
            entry_of (mark_generated a n (data w)) a n = Some (info\<lparr>generated := Some True\<rparr>)) \<and>
         process_image_entry env' args' a dir' url' (n, info\<lparr>generated := Some True\<rparr>) w' =
           (Inr (), w')"
proof -
  let ?w1 = "w\<lparr>requests := requests w @ [(url, build_image_data env args w info res)],
               stdout := stdout w @ [ApiError e]\<rparr>"
  have f: "fetch_image_from_api env url (build_image_data env args w info res) w =
      (Inr [], ?w1)"
    by (simp add: fetch_image_from_api_def post exc Let_def)
  have t: "try_block env args a dir url n info w =
      (Inr (), ?w1\<lparr>data := mark_generated a n (data w),
                    written := written w @ [mark_generated a n (data w)]\<rparr>)"
    using dump by (simp add: try_block_def res f Let_def)
  have p: "process_image_entry env args a dir url (n, info) w =
      (Inr (), ?w1\<lparr>data := mark_generated a n (data w),
                    written := written w @ [mark_generated a n (data w)]\<rparr>)"
    using todo by (simp add: process_image_entry_def t)
  have s: "saved (snd (process_image_entry env args a dir url (n, info) w)) = saved w"
    by (simp add: p)
  have m: "entry_of (data w) a n = Some info \<longrightarrow>
      entry_of (mark_generated a n (data w)) a n = Some (info\<lparr>generated := Some True\<rparr>)"
    by (simp add: entry_of_mark_generated)
  have r: "process_image_entry env' args' a dir' url' (n, info\<lparr>generated := Some True\<rparr>) w' =
      (Inr (), w')"
    by (rule process_generated_entry) simp
  from f p s m r show ?thesis by blast
qed

text \<open>
  The instance of C10 with an endpoint that refuses the connection.
\<close>

theorem failed_request_marks_generated_witness:
  "fetch_image_from_api offline_env ''url'' demo_request demo_world =
     (Inr [],
      demo_world\<lparr>requests := [(''url'', demo_request)],
        stdout := [ApiError (OSError ''connection refused'')]\<rparr>) \<and>
   process_image_entry offline_env demo_args ''artist'' ''temp/artist'' ''url''
     (''b.png'', todo_info) demo_world = (Inr (), failed_world) \<and>
   saved (snd (process_image_entry offline_env demo_args ''artist'' ''temp/artist'' ''url''
     (''b.png'', todo_info) demo_world)) = [] \<and>
   entry_of marked_manifest ''artist'' ''b.png'' = Some (todo_info\<lparr>generated := Some True\<rparr>) \<and>
   process_image_entry garbled_env demo_args ''artist'' ''temp/artist'' ''url''
     (''b.png'', todo_info\<lparr>generated := Some True\<rparr>) failed_world = (Inr (), failed_world)"
proof -
  have b: "build_image_data offline_env demo_args demo_world todo_info (1000, 1000) =
      demo_request"
    by (simp add: build_image_data_def offline_env_def demo_args_def todo_info_def
        demo_request_def)
  have m: "mark_generated ''artist'' ''b.png'' (data demo_world) = marked_manifest"
    by (simp add: mark_generated_def demo_world_def demo_manifest_def marked_manifest_def)
  have r: "calculate_adjusted_resolution (width todo_info)
      (height todo_info) (max_arg demo_args * max_arg demo_args) 2048 = Inr (1000, 1000)"
    using demo_resolution by (simp add: offline_env_def todo_info_def demo_args_def)
  have t: "generated todo_info \<noteq> Some True"
    by (simp add: todo_info_def)
  have p: "post offline_env demo_world ''url''
      (build_image_data offline_env demo_args demo_world todo_info (1000, 1000)) =
      Inl (OSError ''connection refused'')"
    by (simp add: offline_env_def)
  have x: "is_Exception (OSError ''connection refused'')"
    by simp
  have d: "dump offline_env v (json_path demo_args) mm = None" for v mm
    by (simp add: offline_env_def)
  have e: "entry_of (data demo_world) ''artist'' ''b.png'' = Some todo_info"
    by (simp add: entry_of_def demo_world_def demo_manifest_def)
  have q: "requests demo_world = []" "stdout demo_world = []" "written demo_world = []"
    by (simp_all add: demo_world_def)
  have w3: "demo_world\<lparr>requests := [(''url'', demo_request)],
      stdout := [ApiError (OSError ''connection refused'')],
      data := marked_manifest, written := [marked_manifest]\<rparr> = failed_world"
    by (simp add: demo_world_def failed_world_def)
  have s: "saved demo_world = []"
    by (simp add: demo_world_def)
  note inst = failed_request_marks_generated
      [where env = offline_env and args = demo_args and info = todo_info
         and res = "(1000, 1000)" and w = demo_world and url = "''url''"
         and e = "OSError ''connection refused''" and a = "''artist''" and n = "''b.png''"
         and dir = "''temp/artist''" and env' = garbled_env and args' = demo_args
         and dir' = "''temp/artist''" and url' = "''url''" and w' = failed_world,
       OF r t p x d]
  from inst e show ?thesis
    unfolding b m q append_Nil w3 s by blast
qed

section \<open>Properties of the adaptive preprocessing\<close>

lemma calculate_adaptive_size_within_budget:
  assumes "d \<noteq> 0" and "h * w \<le> target_area"
  shows "calculate_adaptive_size h w target_area d = Inr (h - h mod d, w - w mod d)"
  using assms by (simp add: calculate_adaptive_size_def Let_def)

text \<open>
  What the code does with an image within the budget: it passes through when both its
  sides are multiples of \<open>args.divisible\<close>, and goes to \<open>transforms.Resize\<close> with its
  sides rounded down otherwise.
\<close>

lemma preprocess_within_budget_cases:
  assumes d: "0 < divisible args"
    and budget: "tensor_height img * tensor_width img \<le> resolution args * resolution args"
  shows "preprocess_jpg_0 resize args img =
           (if divisible args dvd tensor_height img \<and> divisible args dvd tensor_width img
            then Inr img
            else resize (tensor_height img - tensor_height img mod divisible args,
                         tensor_width img - tensor_width img mod divisible args) img)"
proof -
  let ?d = "divisible args" and ?h = "tensor_height img" and ?w = "tensor_width img"
  have size: "calculate_adaptive_size ?h ?w (resolution args * resolution args) ?d =
      Inr (?h - ?h mod ?d, ?w - ?w mod ?d)"
    using d budget by (intro calculate_adaptive_size_within_budget) simp_all
  have hm: "0 \<le> ?h mod ?d" "0 \<le> ?w mod ?d"
    using d by simp_all
  show ?thesis
  proof (cases "?d dvd ?h \<and> ?d dvd ?w")
    case True
    then show ?thesis by (simp add: preprocess_jpg_0_def size process_image_def)
  next
    case False
    then have "?h mod ?d \<noteq> 0 \<or> ?w mod ?d \<noteq> 0"
      by (simp add: dvd_eq_mod_eq_0)
    with hm have "?h - ?h mod ?d < ?h \<or> ?w - ?w mod ?d < ?w" by linarith
    then have "preprocess_jpg_0 resize args img =
        resize (?h - ?h mod ?d, ?w - ?w mod ?d) img"
      by (simp add: preprocess_jpg_0_def size process_image_def)
    with False show ?thesis by (simp only: if_False)
  qed
qed

text \<open>
  C5: the code breaks the claim, and its own comment "Only resize if image is larger
  than target area". An image of 9 by 9 pixels is within the budget of 16 * 16 pixels,
  but with \<open>divisible = 8\<close> its adaptive size is 8 by 8, which is smaller than the image,
  so \<open>process_image\<close> resizes it. The image is of one colour, for which the bilinear
  interpolation of the library and the resize to the nearest pixel agree.
\<close>

theorem within_budget_image_is_resized:
  "tensor_height image_9x9 * tensor_width image_9x9 \<le>
     resolution demo_trainer_args * resolution demo_trainer_args \<and>
   shape_of (Inr image_9x9) = Some (9, 9) \<and>
   calculate_adaptive_size (tensor_height image_9x9) (tensor_width image_9x9)
     (resolution demo_trainer_args * resolution demo_trainer_args)
     (divisible demo_trainer_args) = Inr (8, 8) \<and>
   preprocess_jpg_0 nearest_resize demo_trainer_args image_9x9 = Inr image_8x8 \<and>
   shape_of (preprocess_jpg_0 nearest_resize demo_trainer_args image_9x9) = Some (8, 8)"
proof -
  have hw: "tensor_height image_9x9 = 9" "tensor_width image_9x9 = 9"
    by (simp_all add: image_9x9_def tensor_height_def tensor_width_def eval_nat_numeral)
  have size: "calculate_adaptive_size 9 9 (16 * 16) 8 = Inr (8, 8)"
    by (simp add: calculate_adaptive_size_within_budget)
  have size': "calculate_adaptive_size (tensor_height image_9x9) (tensor_width image_9x9)
     (resolution demo_trainer_args * resolution demo_trainer_args)
     (divisible demo_trainer_args) = Inr (8, 8)"
    using size by (simp add: hw demo_trainer_args_def)
  have rs: "nearest_resize (8, 8) image_9x9 = Inr image_8x8"
    by code_simp
  have res: "preprocess_jpg_0 nearest_resize demo_trainer_args image_9x9 = Inr image_8x8"
    using size by (simp add: preprocess_jpg_0_def demo_trainer_args_def hw process_image_def rs)
  have s8: "shape_of (Inr image_8x8) = Some (8, 8)"
    by (simp add: shape_of_def image_8x8_def tensor_height_def tensor_width_def eval_nat_numeral)
  have s9: "shape_of (Inr image_9x9) = Some (9, 9)"
    by (simp add: shape_of_def hw)
  have b: "tensor_height image_9x9 * tensor_width image_9x9 \<le>
     resolution demo_trainer_args * resolution demo_trainer_args"
    by (simp add: hw demo_trainer_args_def)
  from b s9 size' res s8 show ?thesis
    by (simp only:)
qed

section \<open>Properties of the pair loop and of the preference loss\<close>

lemma crop_append:
  "crop crop_plane (a @ b) y x h w = crop crop_plane a y x h w @ crop crop_plane b y x h w"
  by (simp add: crop_def)

lemma train_flip_append: "train_flip (a @ b) = train_flip a @ train_flip b"
  by (simp add: train_flip_def)

lemma normalize_t_append: "normalize_t (a @ b) = normalize_t a @ normalize_t b"
  by (simp add: normalize_t_def)

lemma augment_append:
  "augment crop_plane offset target flip (a @ b) =
     augment crop_plane offset target flip a @ augment crop_plane offset target flip b"
  by (simp add: augment_def Let_def crop_append train_flip_append normalize_t_append)

lemma length_augment: "length (augment crop_plane offset target flip a) = length a"
  by (simp add: augment_def Let_def crop_def train_flip_def normalize_t_def)

text \<open>
  C6: whenever \<open>preprocess_train\<close> produces the combined tensor of a pair, that tensor
  is the augmentation of the first image of the ordered pair followed by the
  augmentation of the second, both with the same crop offset (the one recorded in
  \<open>crop_top_lefts\<close>), the same target height and width and the same flip decision; cut
  after the planes of the first image, it gives back the two augmented images.
\<close>

theorem pair_shares_augmentation:
  assumes run: "process_pair args crop_plane rnd im_tup label_0 target = Inr (combined, offset)"
  shows "combined =
           augment crop_plane offset target (\<not> no_hflip args \<and> flip_draw rnd < 0.5)
             (fst (order_pair args rnd label_0 im_tup)) @
           augment crop_plane offset target (\<not> no_hflip args \<and> flip_draw rnd < 0.5)
             (snd (order_pair args rnd label_0 im_tup)) \<and>
         take (length (fst (order_pair args rnd label_0 im_tup))) combined =
           augment crop_plane offset target (\<not> no_hflip args \<and> flip_draw rnd < 0.5)
             (fst (order_pair args rnd label_0 im_tup)) \<and>
         drop (length (fst (order_pair args rnd label_0 im_tup))) combined =
           augment crop_plane offset target (\<not> no_hflip args \<and> flip_draw rnd < 0.5)
             (snd (order_pair args rnd label_0 im_tup))"
proof -
  let ?p = "order_pair args rnd label_0 im_tup"
  let ?flip = "\<not> no_hflip args \<and> flip_draw rnd < 0.5"
  from run obtain whole where cat: "cat_channels ?p = Inr whole"
    by (auto simp: process_pair_def Let_def split: sum.splits)
  then have whole: "whole = fst ?p @ snd ?p"
    by (auto simp: cat_channels_def split: if_splits)
  from run cat have "combined = augment crop_plane offset target ?flip whole"
    by (auto simp: process_pair_def Let_def augment_def split: sum.splits if_splits prod.splits)
  then have c: "combined = augment crop_plane offset target ?flip (fst ?p) @
      augment crop_plane offset target ?flip (snd ?p)"
    by (simp add: whole augment_append)
  moreover from c have "take (length (fst ?p)) combined =
      augment crop_plane offset target ?flip (fst ?p)"
    by (simp add: length_augment)
  moreover from c have "drop (length (fst ?p)) combined =
      augment crop_plane offset target ?flip (snd ?p)"
    by (simp add: length_augment)
  ultimately show ?thesis by blast
qed

lemma demo_process_pair:
  "process_pair demo_trainer_args slice_plane demo_draws (image_a, image_b) 1 (2, 2) =
     Inr ([[[3, 1], [7, 5]], [[11, 9], [15, 13]]], (0, 0))"
  by (simp add: process_pair_def order_pair_def noisy_label_def cat_channels_def
      demo_trainer_args_def demo_draws_def image_a_def image_b_def tensor_height_def
      tensor_width_def py_round_def crop_def slice_plane_def train_flip_def normalize_t_def
      Let_def)

text \<open>
  The instance of C6 at a pair of 2 by 2 images, cropped at the origin and flipped.
\<close>

theorem pair_shares_augmentation_witness:
  "process_pair demo_trainer_args slice_plane demo_draws (image_a, image_b) 1 (2, 2) =
     Inr ([[[3, 1], [7, 5]], [[11, 9], [15, 13]]], (0, 0)) \<and>
   [[[3, 1], [7, 5]], [[11, 9], [15, 13]]] =
     augment slice_plane (0, 0) (2, 2) True image_a @
     augment slice_plane (0, 0) (2, 2) True image_b"
proof -
  have p: "order_pair demo_trainer_args demo_draws 1 (image_a, image_b) = (image_a, image_b)"
    by (simp add: order_pair_def noisy_label_def demo_trainer_args_def)
  have f: "(\<not> no_hflip demo_trainer_args \<and> flip_draw demo_draws < 0.5) = True"
    by (simp add: demo_trainer_args_def demo_draws_def)
  from pair_shares_augmentation [OF demo_process_pair] demo_process_pair
  show ?thesis
    unfolding p f fst_conv snd_conv by blast
qed























end
